theory Spec2Isabelle
  imports Main "HOL-Library.Multiset" "HOL-Library.Product_Lexorder" "HOL-Library.List_Lexorder" "HOL-Library.Char_ord"
begin

section \<open>Strings of the platform\<close>

text \<open>
  The metadata content search of \<^verbatim>\<open>src/app/index.tsx\<close> (\<^verbatim>\<open>searchCodeContent\<close> and its
  helpers) is embedded below. JavaScript strings are modelled as \<^typ>\<open>string\<close>, one
  \<^typ>\<open>char\<close> per code unit; case mapping and white space are those of the ASCII range
  (plus the no-break space), which is where the platform's \<^verbatim>\<open>toLowerCase\<close>,
  \<^verbatim>\<open>trim\<close> and the \<^verbatim>\<open>i\<close> flag of a regular expression agree with the tables below.
\<close>

definition backslash :: char where
  "backslash = CHR 0x5C"

definition newline :: char where
  "newline = CHR 0x0A"

definition lower_letters :: string where
  "lower_letters = ''abcdefghijklmnopqrstuvwxyz''"

definition upper_letters :: string where
  "upper_letters = ''ABCDEFGHIJKLMNOPQRSTUVWXYZ''"

definition toLowerChar :: "char \<Rightarrow> char" where
  "toLowerChar c = (case map_of (zip upper_letters lower_letters) c of Some l \<Rightarrow> l | None \<Rightarrow> c)"

definition toLowerCase :: "string \<Rightarrow> string" where
  "toLowerCase s = map toLowerChar s"

text \<open>\<^verbatim>\<open>Canonicalize\<close> of a case-insensitive, non-unicode regular expression: the upper-case
  form of a code unit.\<close>

definition canonicalize :: "char \<Rightarrow> char" where
  "canonicalize c = (case map_of (zip lower_letters upper_letters) c of Some u \<Rightarrow> u | None \<Rightarrow> c)"

definition isSpace :: "char \<Rightarrow> bool" where
  "isSpace c = (c \<in> set [CHR 0x09, CHR 0x0A, CHR 0x0B, CHR 0x0C, CHR 0x0D, CHR 0x20, CHR 0xA0])"

definition trim :: "string \<Rightarrow> string" where
  "trim s = rev (dropWhile isSpace (rev (dropWhile isSpace s)))"

text \<open>\<^verbatim>\<open>content.split('\n')\<close>: the pieces between line feeds; a string with no line feed
  (the empty string too) is one piece.\<close>

fun splitLines :: "string \<Rightarrow> string list" where
  "splitLines [] = [[]]"
| "splitLines (c # cs) =
     (if c = newline then [] # splitLines cs
      else (case splitLines cs of l # ls \<Rightarrow> (c # l) # ls | [] \<Rightarrow> [[c]]))"

text \<open>\<^verbatim>\<open>parts.join(sep)\<close>.\<close>

fun joinWith :: "string \<Rightarrow> string list \<Rightarrow> string" where
  "joinWith sep [] = []"
| "joinWith sep [p] = p"
| "joinWith sep (p # q # ps) = p @ sep @ joinWith sep (q # ps)"

text \<open>The decimal numeral of a number, as a template literal prints it.\<close>

definition digitChar :: "nat \<Rightarrow> char" where
  "digitChar d = (''0123456789'') ! d"

fun showNat :: "nat \<Rightarrow> string" where
  "showNat n = (if n < 10 then [digitChar n] else showNat (n div 10) @ [digitChar (n mod 10)])"

declare showNat.simps [simp del]

text \<open>\<^verbatim>\<open>s.startsWith(p, i)\<close> after case folding by \<open>f\<close>, and the first index from \<open>i\<close> on
  at which \<open>p\<close> occurs in \<open>s\<close> (\<^verbatim>\<open>indexOf\<close>, and the search of a regular expression for a
  literal pattern).\<close>

definition matchesAt :: "(char \<Rightarrow> char) \<Rightarrow> string \<Rightarrow> string \<Rightarrow> nat \<Rightarrow> bool" where
  "matchesAt f p s i = (i + length p \<le> length s \<and> map f (take (length p) (drop i s)) = map f p)"

fun findFrom :: "(char \<Rightarrow> char) \<Rightarrow> string \<Rightarrow> string \<Rightarrow> nat \<Rightarrow> nat \<Rightarrow> nat option" where
  "findFrom f p s i 0 = None"
| "findFrom f p s i (Suc k) = (if matchesAt f p s i then Some i else findFrom f p s (Suc i) k)"

definition firstIndex :: "(char \<Rightarrow> char) \<Rightarrow> string \<Rightarrow> string \<Rightarrow> nat \<Rightarrow> nat option" where
  "firstIndex f p s i = findFrom f p s i (Suc (length s) - i)"

definition indexOf :: "string \<Rightarrow> string \<Rightarrow> int" where
  "indexOf s p = (case firstIndex id p s 0 of Some i \<Rightarrow> int i | None \<Rightarrow> - 1)"

definition includesStr :: "string \<Rightarrow> string \<Rightarrow> bool" where
  "includesStr s p = (firstIndex id p s 0 \<noteq> None)"

definition substring :: "string \<Rightarrow> nat \<Rightarrow> nat \<Rightarrow> string" where
  "substring s a b = take (max a b - min a b) (drop (min a b) s)"

section \<open>Escaping a term for the full-text query\<close>

text \<open>
  \<^verbatim>\<open>input.replace(/([\\?&|!{}\[\]()^~*:\\"'\+\-])/g, "\\$1")\<close>: the character class, in the
  order it is written, and the global replacement of each member by a backslash and
  itself.
\<close>

definition sosl_reserved :: "char list" where
  "sosl_reserved =
     [CHR 0x5C, CHR ''?'', CHR ''&'', CHR ''|'', CHR ''!'', CHR ''{'', CHR ''}'', CHR ''['', CHR '']'',
      CHR ''('', CHR '')'', CHR ''^'', CHR ''~'', CHR ''*'', CHR '':'', CHR 0x5C, CHR 0x22, CHR 0x27,
      CHR ''+'', CHR ''-'']"

fun escapeSOSL :: "string \<Rightarrow> string" where
  "escapeSOSL [] = []"
| "escapeSOSL (c # cs) =
     (if c \<in> set sosl_reserved then backslash # c # escapeSOSL cs else c # escapeSOSL cs)"

text \<open>\<^verbatim>\<open>buildSearchUrl\<close>: the query that is then URL-encoded after
  \<^verbatim>\<open>{base}/services/data/v64.0/search/?q=\<close>.\<close>

definition buildSosl :: "string \<Rightarrow> string list \<Rightarrow> string" where
  "buildSosl searchTerm objectTypes =
     ''FIND {'' @ [CHR 0x22] @ escapeSOSL searchTerm @ [CHR 0x22] @ ''} IN ALL FIELDS RETURNING ''
       @ joinWith '', '' (map (\<lambda>t. t @ ''(Id,Name)'') objectTypes)"

text \<open>
  The reading of an escaped term that the specification describes, written from its
  words (it is not in the source): a backslash that stands before a reserved character is
  dropped together with the duty to escape that character; everything else is kept.
\<close>

fun unescapeSOSL :: "string \<Rightarrow> string" where
  "unescapeSOSL [] = []"
| "unescapeSOSL [c] = [c]"
| "unescapeSOSL (c # d # cs) =
     (if c = backslash \<and> d \<in> set sosl_reserved then d # unescapeSOSL cs
      else c # unescapeSOSL (d # cs))"

section \<open>Data model\<close>

text \<open>
  \<^verbatim>\<open>CodeSearchResult\<close> and the elements of its \<^verbatim>\<open>matches\<close>. The fields \<^verbatim>\<open>id\<close>,
  \<^verbatim>\<open>type\<close> and \<^verbatim>\<open>context\<close> carry a suffix, since the bare names are taken.
\<close>

record Match =
  line :: nat
  content :: string
  snippet :: string
  context_m :: string

record CodeSearchResult =
  id_r :: string
  type_r :: string
  name :: string
  label :: string
  fileName :: string
  matches :: "Match list"
  totalMatches :: nat

text \<open>
  The two failures the code distinguishes: \<^verbatim>\<open>TokenExpiredError\<close> with its message, and any
  other \<^verbatim>\<open>Error\<close> (its message is only ever logged). A promise is resolved with a
  value, rejected with a failure, or never settles.
\<close>

datatype Error = TokenExpiredError string | GenericError

datatype 'a Promise = Resolved 'a | Rejected Error | Pending

text \<open>
  What the remote side does with one call: it answers 2xx with a payload, it answers
  non-2xx with a status and a body, the call throws (an exception of \<^verbatim>\<open>fetch\<close> or of the
  parsing of the payload; a payload without the expected array is counted here: reading
  its length throws), or there is no answer. What becomes of a call without an answer
  depends on the caller: \<^verbatim>\<open>toolingQuery\<close> arms a timer that aborts the call, which then
  throws \<^verbatim>\<open>AbortError\<close>; the other calls of \<^verbatim>\<open>fetch\<close> carry no signal and stay pending.
\<close>

datatype ErrorBody =
    NotJson
  | ErrorJson string "string option"

datatype 'a Response =
    Ok 'a
  | HttpError nat ErrorBody
  | NoAnswer
  | Threw

text \<open>
  \<^verbatim>\<open>ErrorJson code msg\<close> is a body that \<^verbatim>\<open>JSON.parse\<close> accepts, with
  \<^verbatim>\<open>errorJson[0]?.errorCode\<close> (empty when absent) and \<^verbatim>\<open>errorJson[0]?.message\<close> (a string, or
  absent); \<^verbatim>\<open>NotJson\<close> is a body on which the \<^verbatim>\<open>try\<close> block of \<^verbatim>\<open>handleApiError\<close> throws.
  An absent message leaves the constructor of \<^verbatim>\<open>TokenExpiredError\<close> with its default.
  \<^verbatim>\<open>handleApiError\<close> never returns; the model returns what it throws.
\<close>

definition handleApiError :: "nat \<Rightarrow> ErrorBody \<Rightarrow> Error" where
  "handleApiError status body =
     (case body of
        ErrorJson errorCode message \<Rightarrow>
          (if errorCode = ''INVALID_SESSION_ID''
              \<or> (case message of Some m \<Rightarrow> includesStr m ''Session expired'' | None \<Rightarrow> False)
           then TokenExpiredError (case message of Some m \<Rightarrow> m | None \<Rightarrow> ''Token expired or invalid'')
           else if (case message of Some m \<Rightarrow> m \<noteq> [] | None \<Rightarrow> False) \<and> status = 401
           then TokenExpiredError ''Session expired or invalid''
           else GenericError)
      | NotJson \<Rightarrow>
          (if status = 401 then TokenExpiredError ''Session expired or invalid'' else GenericError))"

text \<open>\<^verbatim>\<open>toolingQuery\<close>, lines 591 to 631: the records, or the token failure it re-throws.\<close>

definition toolingQuery :: "'r list Response \<Rightarrow> Error + 'r list" where
  "toolingQuery response =
     (case response of
        Ok records \<Rightarrow> Inr records
      | HttpError status body \<Rightarrow>
          (if status = 401
           then (case handleApiError status body of
                   TokenExpiredError m \<Rightarrow> Inl (TokenExpiredError m)
                 | GenericError \<Rightarrow> Inr [])
           else Inr [])
      | NoAnswer \<Rightarrow> Inr []
      | Threw \<Rightarrow> Inr [])"

section \<open>The shared regular expression\<close>

text \<open>
  \<^verbatim>\<open>new RegExp(searchTerm.replace(/[.*+?^${}()|[\]\\]/g, '\\$&'), 'gi')\<close>: every
  metacharacter of the term is escaped, so the pattern denotes the term itself, compared
  without regard to case. The \<^verbatim>\<open>g\<close> flag makes \<^verbatim>\<open>test\<close> read and write
  \<^verbatim>\<open>lastIndex\<close>: the search starts there, a hit moves it behind the hit, a miss (or a start
  beyond the end of the string) resets it to zero. One such object serves all branches.
\<close>

definition regexTest :: "string \<Rightarrow> nat \<Rightarrow> string \<Rightarrow> bool \<times> nat" where
  "regexTest searchTerm lastIdx s =
     (if lastIdx > length s then (False, 0)
      else (case firstIndex canonicalize searchTerm s lastIdx of
              Some i \<Rightarrow> (True, i + length searchTerm)
            | None \<Rightarrow> (False, 0)))"

section \<open>The content scanner\<close>

definition makeSnippet :: "nat \<Rightarrow> string \<Rightarrow> string \<Rightarrow> string" where
  "makeSnippet window searchTerm ln =
     (let matchIndex = indexOf (toLowerCase ln) (toLowerCase searchTerm);
          start = max 0 (matchIndex - int window);
          end = min (int (length ln)) (matchIndex + int (length searchTerm) + int window)
      in (if start > 0 then ''...'' else [])
         @ trim (substring ln (nat start) (nat end))
         @ (if end < int (length ln) then ''...'' else []))"

definition contextLines :: "string list \<Rightarrow> nat \<Rightarrow> string list" where
  "contextLines lines i =
     (if i > 0 \<and> trim (lines ! (i - 1)) \<noteq> [] then [showNat i @ '': '' @ trim (lines ! (i - 1))] else [])
     @ [showNat (i + 1) @ '': '' @ trim (lines ! i)]
     @ (if i + 1 < length lines \<and> trim (lines ! (i + 1)) \<noteq> []
        then [showNat (i + 2) @ '': '' @ trim (lines ! (i + 1))] else [])"

definition contentMatch :: "string \<Rightarrow> string \<Rightarrow> string list \<Rightarrow> nat \<Rightarrow> Match" where
  "contentMatch searchTerm ty lines i =
     \<lparr> line = i + 1,
       content = joinWith [newline] (contextLines lines i),
       snippet = makeSnippet 50 searchTerm (lines ! i),
       context_m = ''Line '' @ showNat (i + 1) @ '' ('' @ ty @ '')'' \<rparr>"

text \<open>
  The loop \<^verbatim>\<open>for (let i = 0; i < lines.length && matches.length < maxMatches; i++)\<close>
  with the test of the shared expression in its body: \<open>mk i\<close> is the record built for
  a hit on line \<open>i\<close>, \<open>lastIdx\<close> the state of the expression.
\<close>

function scanLines ::
  "(nat \<Rightarrow> Match) \<Rightarrow> nat \<Rightarrow> string \<Rightarrow> string list \<Rightarrow> nat \<Rightarrow> nat \<Rightarrow> Match list \<Rightarrow> Match list \<times> nat" where
  "scanLines mk maxMatches searchTerm lines i lastIdx acc =
     (if i < length lines \<and> length acc < maxMatches
      then scanLines mk maxMatches searchTerm lines (i + 1)
             (snd (regexTest searchTerm lastIdx (lines ! i)))
             (if fst (regexTest searchTerm lastIdx (lines ! i)) then acc @ [mk i] else acc)
      else (acc, lastIdx))"
  by pat_completeness auto
termination
  by (relation "measure (\<lambda>(mk, maxMatches, searchTerm, lines, i, lastIdx, acc). length lines - i)") auto

declare scanLines.simps [simp del]

text \<open>
  A call of \<^verbatim>\<open>fetch\<close>: the base URL and the bearer token it carries, and what it asks
  for (a tooling query of an object with the timeout of its abort timer, the record query,
  the full-text search with its query string, or the document of one flow).
  The state all branches share is the \<^verbatim>\<open>results\<close> array and
  \<^verbatim>\<open>searchRegex.lastIndex\<close>; the calls issued so far are recorded beside them.
\<close>

datatype Target =
    ToolingQuery string nat
  | Query string
  | Search string
  | FlowXml string

datatype Request = Request string string Target

record State =
  results :: "CodeSearchResult list"
  lastIndex :: nat
  requests :: "Target list"

text \<open>\<^verbatim>\<open>searchRegex.test(s)\<close> on the shared state.\<close>

definition test :: "string \<Rightarrow> string \<Rightarrow> State \<Rightarrow> bool \<times> State" where
  "test searchTerm s st =
     (fst (regexTest searchTerm (lastIndex st) s),
      st\<lparr>lastIndex := snd (regexTest searchTerm (lastIndex st) s)\<rparr>)"

text \<open>\<^verbatim>\<open>searchInContent\<close>, lines 636 to 685.\<close>

definition searchInContent ::
  "string \<Rightarrow> string \<Rightarrow> string \<Rightarrow> string \<Rightarrow> string \<Rightarrow> string \<Rightarrow> string \<Rightarrow> State \<Rightarrow> State" where
  "searchInContent searchTerm body fileNm ty nm lbl ident st =
     (if body = [] then st
      else
        (let lines = splitLines body;
             scanned = scanLines (contentMatch searchTerm ty lines) 15 searchTerm lines 0 (lastIndex st) [];
             ms = fst scanned
         in if length ms > 0
            then st\<lparr>results := results st @
                      [\<lparr> id_r = ident, type_r = ty, name = nm, label = lbl, fileName = fileNm,
                         matches = ms, totalMatches = length ms \<rparr>],
                    lastIndex := snd scanned\<rparr>
            else st\<lparr>lastIndex := snd scanned\<rparr>))"

section \<open>Records of the remote API\<close>

text \<open>
  The fields the branches read. A field that is null or absent behaves as the empty string
  wherever the code reads it behind a truthiness guard (\<^verbatim>\<open>x && ...\<close>, \<^verbatim>\<open>x || ...\<close>,
  \<^verbatim>\<open>filter(Boolean)\<close>), so such a field is the empty string here; the fields read without
  a guard (\<^verbatim>\<open>Id\<close>, \<^verbatim>\<open>Name\<close> and the like) are taken to be present.
\<close>

record ApexClass =
  cls_Id :: string
  cls_Name :: string
  cls_Body :: string

record ApexTrigger =
  trigger_Id :: string
  trigger_Name :: string
  trigger_Body :: string
  trigger_TableEnumOrId :: string

record Flow =
  flow_Id :: string
  flow_MasterLabel :: string

record Bundle =
  bundle_Id :: string
  bundle_DeveloperName :: string
  bundle_MasterLabel :: string
  bundle_Description :: string

record ValidationRule =
  rule_Id :: string
  rule_ValidationName :: string
  rule_ErrorMessage :: string
  rule_ErrorDisplayField :: string

record Layout =
  layout_Id :: string
  layout_Name :: string
  layout_TableEnumOrId :: string

record RecordType =
  recordType_Id :: string
  recordType_Name :: string
  recordType_SobjectType :: string
  recordType_Description :: string

record SearchRecord =
  record_type :: string
  record_Id :: string
  record_Name :: string

section \<open>The branches of the dispatcher\<close>

text \<open>\<^verbatim>\<open>x && searchRegex.test(x)\<close>: the expression is not touched when \<open>x\<close> is falsy.\<close>

definition guardedTest :: "string \<Rightarrow> string \<Rightarrow> State \<Rightarrow> bool \<times> State" where
  "guardedTest searchTerm s st = (if s \<noteq> [] then test searchTerm s st else (False, st))"

text \<open>\<^verbatim>\<open>d.length > 100 ? d.substring(0, 100) + '...' : d\<close>.\<close>

definition clip100 :: "string \<Rightarrow> string" where
  "clip100 d = (if length d > 100 then substring d 0 100 @ ''...'' else d)"

definition fieldMatch :: "nat \<Rightarrow> string \<Rightarrow> string \<Rightarrow> string \<Rightarrow> Match" where
  "fieldMatch ln cont snip ctx = \<lparr> line = ln, content = cont, snippet = snip, context_m = ctx \<rparr>"

text \<open>Branch 1, Apex classes (lines 690 to 725). A branch settles as a promise of no value.\<close>

definition apexClassStep :: "string \<Rightarrow> State \<Rightarrow> ApexClass \<Rightarrow> State" where
  "apexClassStep searchTerm st cls =
     (if cls_Body cls \<noteq> [] \<and> trim (cls_Body cls) \<noteq> []
      then (let t = test searchTerm (cls_Body cls) st
            in if fst t
               then searchInContent searchTerm (cls_Body cls) (cls_Name cls @ ''.cls'') ''apex-class''
                      (cls_Name cls) (cls_Name cls) (''apex-class-'' @ cls_Id cls) (snd t)
               else snd t)
      else st)"

text \<open>The \<^verbatim>\<open>catch\<close> of a branch: a token failure is thrown again, anything else is dropped.\<close>

definition branchCatch :: "Error \<Rightarrow> State \<Rightarrow> unit Promise \<times> State" where
  "branchCatch e st = (case e of TokenExpiredError m \<Rightarrow> (Rejected e, st) | GenericError \<Rightarrow> (Resolved (), st))"

definition searchApexClasses :: "string \<Rightarrow> ApexClass list Response \<Rightarrow> State \<Rightarrow> unit Promise \<times> State" where
  "searchApexClasses searchTerm response st =
     (case toolingQuery response of
        Inl e \<Rightarrow> branchCatch e st
      | Inr apexClasses \<Rightarrow> (Resolved (), foldl (apexClassStep searchTerm) st apexClasses))"

text \<open>Branch 2, Apex triggers (lines 727 to 762).\<close>

definition triggerStep :: "string \<Rightarrow> State \<Rightarrow> ApexTrigger \<Rightarrow> State" where
  "triggerStep searchTerm st trg =
     (if trigger_Body trg \<noteq> [] \<and> trim (trigger_Body trg) \<noteq> []
      then (let t = test searchTerm (trigger_Body trg) st
            in if fst t
               then searchInContent searchTerm (trigger_Body trg) (trigger_Name trg @ ''.trigger'')
                      ''apex-trigger'' (trigger_Name trg)
                      (trigger_Name trg @ '' ('' @ trigger_TableEnumOrId trg @ '')'')
                      (''apex-trigger-'' @ trigger_Id trg) (snd t)
               else snd t)
      else st)"

definition searchApexTriggers :: "string \<Rightarrow> ApexTrigger list Response \<Rightarrow> State \<Rightarrow> unit Promise \<times> State" where
  "searchApexTriggers searchTerm response st =
     (case toolingQuery response of
        Inl e \<Rightarrow> branchCatch e st
      | Inr triggers \<Rightarrow> (Resolved (), foldl (triggerStep searchTerm) st triggers))"

text \<open>
  Branch 3, flows (lines 764 to 931). \<^verbatim>\<open>line.match(/<(\w+)[^>]*>/)\<close> finds the leftmost
  \<^verbatim>\<open><\<close> that is followed by a word character and, somewhere later, by \<^verbatim>\<open>>\<close>; the group is
  the longest run of word characters after it.
\<close>

definition isWordChar :: "char \<Rightarrow> bool" where
  "isWordChar c = (c \<in> set (lower_letters @ upper_letters @ ''0123456789_''))"

fun firstTag :: "string \<Rightarrow> string option" where
  "firstTag [] = None"
| "firstTag (c # cs) =
     (if c = CHR ''<'' \<and> takeWhile isWordChar cs \<noteq> [] \<and> CHR ''>'' \<in> set (dropWhile isWordChar cs)
      then Some (takeWhile isWordChar cs)
      else firstTag cs)"

definition flowElementTypes :: "(string \<times> string) list" where
  "flowElementTypes =
     [(''label'', ''Element Label''),
      (''name'', ''Element Name''),
      (''description'', ''Element Description''),
      (''helpText'', ''Help Text''),
      (''value'', ''Value''),
      (''stringValue'', ''String Value''),
      (''formula'', ''Formula''),
      (''elementReference'', ''Element Reference''),
      (''choiceText'', ''Choice Text''),
      (''defaultValue'', ''Default Value''),
      (''errorMessage'', ''Error Message''),
      (''validationRule'', ''Validation Rule''),
      (''screenField'', ''Screen Field''),
      (''inputParameter'', ''Input Parameter''),
      (''outputParameter'', ''Output Parameter''),
      (''variable'', ''Variable''),
      (''textTemplate'', ''Text Template''),
      (''recordLookup'', ''Record Lookup''),
      (''recordCreate'', ''Record Create''),
      (''recordUpdate'', ''Record Update''),
      (''assignment'', ''Assignment''),
      (''decision'', ''Decision''),
      (''screen'', ''Screen''),
      (''subflow'', ''Subflow''),
      (''loop'', ''Loop''),
      (''wait'', ''Wait''),
      (''actionCall'', ''Action Call''),
      (''collectionProcessor'', ''Collection Processor'')]"

text \<open>The label of a line of a flow document (a tag that names an inherited property of
  a JavaScript object, such as \<^verbatim>\<open>constructor\<close>, is outside this table and outside the model).\<close>

definition flowContext :: "string \<Rightarrow> string" where
  "flowContext ln =
     (case firstTag ln of
        None \<Rightarrow> ''Flow XML''
      | Some tagName \<Rightarrow>
          (case map_of flowElementTypes tagName of
             Some t \<Rightarrow> t
           | None \<Rightarrow> ''Flow XML ('' @ tagName @ '')''))"

definition flowXmlMatch :: "string \<Rightarrow> string list \<Rightarrow> nat \<Rightarrow> Match" where
  "flowXmlMatch searchTerm xmlLines lineIndex =
     \<lparr> line = lineIndex + 1,
       content = joinWith [newline] (contextLines xmlLines lineIndex),
       snippet = makeSnippet 60 searchTerm (xmlLines ! lineIndex),
       context_m = flowContext (xmlLines ! lineIndex) @ '' Line '' @ showNat (lineIndex + 1) \<rparr>"

text \<open>
  One flow is handled in two steps. The first runs when the batch is mapped: the test of
  the name, then the call for the document. The second runs when that call has settled:
  the scan of the lines of the document if it has arrived, and the push of the result.
  The call carries no abort signal: without an answer the second step never runs.
\<close>

definition flowNameStep :: "string \<Rightarrow> Flow \<Rightarrow> State \<Rightarrow> Match list \<times> State" where
  "flowNameStep searchTerm flow st =
     (let t = guardedTest searchTerm (flow_MasterLabel flow) st;
          flowMatches = (if fst t
                         then [fieldMatch 1 (''Flow Name: '' @ flow_MasterLabel flow)
                                 (flow_MasterLabel flow) ''Flow Name'']
                         else [])
      in (flowMatches, (snd t)\<lparr>requests := requests (snd t) @ [FlowXml (flow_Id flow)]\<rparr>))"

text \<open>Lines 817 to 899, for a document that has arrived: its matches.\<close>

definition scanFlowXml :: "string \<Rightarrow> string \<Rightarrow> State \<Rightarrow> Match list \<times> State" where
  "scanFlowXml searchTerm xmlContent st =
     (if xmlContent \<noteq> [] \<and> length (trim xmlContent) > 0
      then (let t = test searchTerm xmlContent st
            in if fst t
               then (let xmlLines = splitLines xmlContent;
                         scanned = scanLines (flowXmlMatch searchTerm xmlLines) 10 searchTerm
                                     xmlLines 0 (lastIndex (snd t)) []
                     in (fst scanned, (snd t)\<lparr>lastIndex := snd scanned\<rparr>))
               else ([], snd t))
      else ([], st))"

text \<open>Lines 907 to 918: the flow is pushed if it has any match.\<close>

definition addFlow :: "Flow \<Rightarrow> Match list \<Rightarrow> nat \<Rightarrow> State \<Rightarrow> State" where
  "addFlow flow flowMatches n st =
     (let flowName = (if flow_MasterLabel flow \<noteq> [] then flow_MasterLabel flow else ''Flow'')
      in if length flowMatches > 0
         then st\<lparr>results := results st @
                 [\<lparr> id_r = ''flow-'' @ flow_Id flow, type_r = ''flow'', name = flowName,
                    label = flowName, fileName = flowName @ ''.flow'',
                    matches = flowMatches, totalMatches = n \<rparr>]\<rparr>
         else st)"

text \<open>
  The second step, with whether it has run at all. A response that is not ok and a call
  that throws leave the flow with the match of its name.
\<close>

definition flowXmlStep ::
  "string \<Rightarrow> string Response \<Rightarrow> Flow \<Rightarrow> Match list \<Rightarrow> State \<Rightarrow> bool \<times> State" where
  "flowXmlStep searchTerm xmlResponse flow nameMatches st =
     (case xmlResponse of
        Ok xmlContent \<Rightarrow>
          (let x = scanFlowXml searchTerm xmlContent st
           in (True, addFlow flow (nameMatches @ fst x) (length nameMatches + length (fst x)) (snd x)))
      | HttpError status body \<Rightarrow> (True, addFlow flow nameMatches (length nameMatches) st)
      | Threw \<Rightarrow> (True, addFlow flow nameMatches (length nameMatches) st)
      | NoAnswer \<Rightarrow> (False, st))"

text \<open>
  A batch of at most three flows under \<^verbatim>\<open>Promise.all\<close>: the first steps of all of them run
  at once, in order; the second steps run as the documents arrive, here in the order of the
  calls, and with no step of another branch in between. The batch is done when all its
  second steps have run.
\<close>

fun flowNameSteps :: "string \<Rightarrow> Flow list \<Rightarrow> State \<Rightarrow> (Flow \<times> Match list) list \<times> State" where
  "flowNameSteps searchTerm [] st = ([], st)"
| "flowNameSteps searchTerm (flow # batch) st =
     (let r = flowNameStep searchTerm flow st;
          rest = flowNameSteps searchTerm batch (snd r)
      in ((flow, fst r) # fst rest, snd rest))"

fun flowXmlSteps ::
  "string \<Rightarrow> (string \<Rightarrow> string Response) \<Rightarrow> (Flow \<times> Match list) list \<Rightarrow> State \<Rightarrow> bool \<times> State" where
  "flowXmlSteps searchTerm xml [] st = (True, st)"
| "flowXmlSteps searchTerm xml ((flow, nameMatches) # started) st =
     (let r = flowXmlStep searchTerm (xml (flow_Id flow)) flow nameMatches st;
          rest = flowXmlSteps searchTerm xml started (snd r)
      in (fst r \<and> fst rest, snd rest))"

definition processBatch ::
  "string \<Rightarrow> (string \<Rightarrow> string Response) \<Rightarrow> Flow list \<Rightarrow> State \<Rightarrow> bool \<times> State" where
  "processBatch searchTerm xml batch st =
     (let started = flowNameSteps searchTerm batch st
      in flowXmlSteps searchTerm xml (fst started) (snd started))"

text \<open>
  \<^verbatim>\<open>for (let i = 0; i < flows.length; i += batchSize)\<close> with \<^verbatim>\<open>batchSize = 3\<close> and the
  \<^verbatim>\<open>await\<close> of each batch: the loop goes on to the next batch when the batch is done, and
  comes to its end when all are.
\<close>

function processFlows ::
  "string \<Rightarrow> (string \<Rightarrow> string Response) \<Rightarrow> Flow list \<Rightarrow> State \<Rightarrow> bool \<times> State" where
  "processFlows searchTerm xml flows st =
     (if flows = [] then (True, st)
      else if fst (processBatch searchTerm xml (take 3 flows) st)
      then processFlows searchTerm xml (drop 3 flows) (snd (processBatch searchTerm xml (take 3 flows) st))
      else (False, snd (processBatch searchTerm xml (take 3 flows) st)))"
  by pat_completeness auto
termination
  by (relation "measure (\<lambda>(searchTerm, xml, flows, st). length flows)") auto

declare processFlows.simps [simp del]

definition searchFlows ::
  "string \<Rightarrow> Flow list Response \<Rightarrow> (string \<Rightarrow> string Response) \<Rightarrow> State \<Rightarrow> unit Promise \<times> State" where
  "searchFlows searchTerm response xml st =
     (case toolingQuery response of
        Inl e \<Rightarrow> branchCatch e st
      | Inr flows \<Rightarrow>
          (let finished = processFlows searchTerm xml flows st
           in (if fst finished then Resolved () else Pending, snd finished)))"

text \<open>Branches 4 and 5, Lightning web components and Aura components (lines 933 to 1071).\<close>

definition lwcStep :: "string \<Rightarrow> State \<Rightarrow> Bundle \<Rightarrow> State" where
  "lwcStep searchTerm st lwc =
     (let searchableContent =
            joinWith '' '' (filter (\<lambda>s. s \<noteq> [])
              [bundle_DeveloperName lwc, bundle_MasterLabel lwc, bundle_Description lwc]);
          t0 = test searchTerm searchableContent st
      in if fst t0
         then (let t1 = guardedTest searchTerm (bundle_DeveloperName lwc) (snd t0);
                   m1 = (if fst t1
                         then [fieldMatch 1 (''Component Name: '' @ bundle_DeveloperName lwc)
                                 (bundle_DeveloperName lwc) ''LWC Name'']
                         else []);
                   t2 = guardedTest searchTerm (bundle_MasterLabel lwc) (snd t1);
                   m2 = (if fst t2
                         then [fieldMatch 2 (''Label: '' @ bundle_MasterLabel lwc)
                                 (bundle_MasterLabel lwc) ''LWC Label'']
                         else []);
                   t3 = guardedTest searchTerm (bundle_Description lwc) (snd t2);
                   m3 = (if fst t3
                         then [fieldMatch 3 (''Description: '' @ bundle_Description lwc)
                                 (clip100 (bundle_Description lwc)) ''LWC Description'']
                         else []);
                   ms = m1 @ m2 @ m3
               in (snd t3)\<lparr>results := results (snd t3) @
                     [\<lparr> id_r = ''lwc-bundle-'' @ bundle_Id lwc, type_r = ''lwc-bundle'',
                        name = bundle_DeveloperName lwc,
                        label = (if bundle_MasterLabel lwc \<noteq> [] then bundle_MasterLabel lwc
                                 else bundle_DeveloperName lwc),
                        fileName = bundle_DeveloperName lwc @ ''.js'',
                        matches = ms, totalMatches = length ms \<rparr>]\<rparr>)
         else snd t0)"

definition searchLwc :: "string \<Rightarrow> Bundle list Response \<Rightarrow> State \<Rightarrow> unit Promise \<times> State" where
  "searchLwc searchTerm response st =
     (case toolingQuery response of
        Inl e \<Rightarrow> branchCatch e st
      | Inr lwcBundles \<Rightarrow> (Resolved (), foldl (lwcStep searchTerm) st lwcBundles))"

definition auraStep :: "string \<Rightarrow> State \<Rightarrow> Bundle \<Rightarrow> State" where
  "auraStep searchTerm st aura =
     (let searchableContent =
            joinWith '' '' (filter (\<lambda>s. s \<noteq> [])
              [bundle_DeveloperName aura, bundle_MasterLabel aura, bundle_Description aura]);
          t0 = test searchTerm searchableContent st
      in if fst t0
         then (let t1 = guardedTest searchTerm (bundle_DeveloperName aura) (snd t0);
                   m1 = (if fst t1
                         then [fieldMatch 1 (''Component Name: '' @ bundle_DeveloperName aura)
                                 (bundle_DeveloperName aura) ''Aura Name'']
                         else []);
                   t2 = guardedTest searchTerm (bundle_MasterLabel aura) (snd t1);
                   m2 = (if fst t2
                         then [fieldMatch 2 (''Label: '' @ bundle_MasterLabel aura)
                                 (bundle_MasterLabel aura) ''Aura Label'']
                         else []);
                   t3 = guardedTest searchTerm (bundle_Description aura) (snd t2);
                   m3 = (if fst t3
                         then [fieldMatch 3 (''Description: '' @ bundle_Description aura)
                                 (clip100 (bundle_Description aura)) ''Aura Description'']
                         else []);
                   ms = m1 @ m2 @ m3
               in (snd t3)\<lparr>results := results (snd t3) @
                     [\<lparr> id_r = ''aura-bundle-'' @ bundle_Id aura, type_r = ''aura-bundle'',
                        name = bundle_DeveloperName aura,
                        label = (if bundle_MasterLabel aura \<noteq> [] then bundle_MasterLabel aura
                                 else bundle_DeveloperName aura),
                        fileName = bundle_DeveloperName aura @ ''.cmp'',
                        matches = ms, totalMatches = length ms \<rparr>]\<rparr>)
         else snd t0)"

definition searchAura :: "string \<Rightarrow> Bundle list Response \<Rightarrow> State \<Rightarrow> unit Promise \<times> State" where
  "searchAura searchTerm response st =
     (case toolingQuery response of
        Inl e \<Rightarrow> branchCatch e st
      | Inr auraBundles \<Rightarrow> (Resolved (), foldl (auraStep searchTerm) st auraBundles))"

text \<open>Branch 6, validation rules (lines 1073 to 1133).\<close>

definition validationStep :: "string \<Rightarrow> State \<Rightarrow> ValidationRule \<Rightarrow> State" where
  "validationStep searchTerm st rule =
     (let searchableContent =
            joinWith '' '' (filter (\<lambda>s. s \<noteq> [])
              [rule_ValidationName rule, rule_ErrorMessage rule, rule_ErrorDisplayField rule]);
          t0 = test searchTerm searchableContent st
      in if fst t0
         then (let t1 = guardedTest searchTerm (rule_ValidationName rule) (snd t0);
                   m1 = (if fst t1
                         then [fieldMatch 1 (''Rule Name: '' @ rule_ValidationName rule)
                                 (rule_ValidationName rule) ''Validation Rule Name'']
                         else []);
                   t2 = guardedTest searchTerm (rule_ErrorMessage rule) (snd t1);
                   m2 = (if fst t2
                         then [fieldMatch 2 (''Error Message: '' @ rule_ErrorMessage rule)
                                 (clip100 (rule_ErrorMessage rule)) ''Error Message'']
                         else []);
                   ms = m1 @ m2
               in (snd t2)\<lparr>results := results (snd t2) @
                     [\<lparr> id_r = ''validation-rule-'' @ rule_Id rule, type_r = ''validation-rule'',
                        name = rule_ValidationName rule, label = rule_ValidationName rule,
                        fileName = rule_ValidationName rule @ ''.validationRule'',
                        matches = ms, totalMatches = length ms \<rparr>]\<rparr>)
         else snd t0)"

definition searchValidationRules ::
  "string \<Rightarrow> ValidationRule list Response \<Rightarrow> State \<Rightarrow> unit Promise \<times> State" where
  "searchValidationRules searchTerm response st =
     (case toolingQuery response of
        Inl e \<Rightarrow> branchCatch e st
      | Inr validationRules \<Rightarrow> (Resolved (), foldl (validationStep searchTerm) st validationRules))"

text \<open>Branch 7, page layouts (lines 1135 to 1176).\<close>

definition layoutStep :: "string \<Rightarrow> State \<Rightarrow> Layout \<Rightarrow> State" where
  "layoutStep searchTerm st layout =
     (let t = guardedTest searchTerm (layout_Name layout) st
      in if fst t
         then (snd t)\<lparr>results := results (snd t) @
                 [\<lparr> id_r = ''page-layout-'' @ layout_Id layout, type_r = ''page-layout'',
                    name = layout_Name layout,
                    label = layout_Name layout @ '' ('' @ layout_TableEnumOrId layout @ '')'',
                    fileName = layout_TableEnumOrId layout @ ''.'' @ layout_Name layout @ ''.layout'',
                    matches = [fieldMatch 1 (''Layout Name: '' @ layout_Name layout)
                                 (layout_Name layout) ''Page Layout Name''],
                    totalMatches = 1 \<rparr>]\<rparr>
         else snd t)"

definition searchLayouts :: "string \<Rightarrow> Layout list Response \<Rightarrow> State \<Rightarrow> unit Promise \<times> State" where
  "searchLayouts searchTerm response st =
     (case toolingQuery response of
        Inl e \<Rightarrow> branchCatch e st
      | Inr layouts \<Rightarrow> (Resolved (), foldl (layoutStep searchTerm) st layouts))"

text \<open>
  Branch 8, record types (lines 1178 to 1240): a plain \<^verbatim>\<open>fetch\<close> with no abort timer; a
  response that is not ok ends the branch, whatever its status, and without an answer the
  branch never settles.
\<close>

definition recordTypeStep :: "string \<Rightarrow> State \<Rightarrow> RecordType \<Rightarrow> State" where
  "recordTypeStep searchTerm st recordType =
     (let searchableContent =
            joinWith '' '' (filter (\<lambda>s. s \<noteq> [])
              [recordType_Name recordType, recordType_Description recordType]);
          t0 = test searchTerm searchableContent st
      in if fst t0
         then (let t1 = guardedTest searchTerm (recordType_Name recordType) (snd t0);
                   m1 = (if fst t1
                         then [fieldMatch 1 (''Record Type Name: '' @ recordType_Name recordType)
                                 (recordType_Name recordType) ''Record Type Name'']
                         else []);
                   t2 = guardedTest searchTerm (recordType_Description recordType) (snd t1);
                   m2 = (if fst t2
                         then [fieldMatch 2 (''Description: '' @ recordType_Description recordType)
                                 (clip100 (recordType_Description recordType)) ''Record Type Description'']
                         else []);
                   ms = m1 @ m2
               in (snd t2)\<lparr>results := results (snd t2) @
                     [\<lparr> id_r = ''record-type-'' @ recordType_Id recordType, type_r = ''record-type'',
                        name = recordType_Name recordType,
                        label = recordType_Name recordType @ '' ('' @ recordType_SobjectType recordType @ '')'',
                        fileName = recordType_SobjectType recordType @ ''.'' @ recordType_Name recordType
                                     @ ''.recordType'',
                        matches = ms, totalMatches = length ms \<rparr>]\<rparr>)
         else snd t0)"

definition searchRecordTypes :: "string \<Rightarrow> RecordType list Response \<Rightarrow> State \<Rightarrow> unit Promise \<times> State" where
  "searchRecordTypes searchTerm response st =
     (case response of
        Ok recordTypes \<Rightarrow> (Resolved (), foldl (recordTypeStep searchTerm) st recordTypes)
      | HttpError status body \<Rightarrow> (Resolved (), st)
      | NoAnswer \<Rightarrow> (Pending, st)
      | Threw \<Rightarrow> branchCatch GenericError st)"

text \<open>
  Branch 10, the full-text fallback (lines 1244 to 1316), a plain \<^verbatim>\<open>fetch\<close> too;
  \<^verbatim>\<open>searchRecords\<close> that is not an array counts as no records.
\<close>

definition soslMatch :: "string \<Rightarrow> Match" where
  "soslMatch searchTerm =
     fieldMatch 1 (''Found via SOSL search - contains '' @ [CHR 0x22] @ searchTerm @ [CHR 0x22])
       (''Contains '' @ [CHR 0x22] @ searchTerm @ [CHR 0x22]) ''SOSL Search Result''"

definition soslStep :: "string \<Rightarrow> State \<Rightarrow> SearchRecord \<Rightarrow> State" where
  "soslStep searchTerm st record =
     (let ty = record_type record;
          existingId = (if ty = ''ApexClass'' then ''apex-class-'' @ record_Id record
                        else ''apex-trigger-'' @ record_Id record)
      in if find (\<lambda>r. id_r r = existingId) (results st) = None
         then (if ty = ''ApexClass''
               then st\<lparr>results := results st @
                       [\<lparr> id_r = existingId, type_r = ''apex-class'', name = record_Name record,
                          label = record_Name record, fileName = record_Name record @ ''.cls'',
                          matches = [soslMatch searchTerm], totalMatches = 1 \<rparr>]\<rparr>
               else if ty = ''ApexTrigger''
               then st\<lparr>results := results st @
                       [\<lparr> id_r = existingId, type_r = ''apex-trigger'', name = record_Name record,
                          label = record_Name record, fileName = record_Name record @ ''.trigger'',
                          matches = [soslMatch searchTerm], totalMatches = 1 \<rparr>]\<rparr>
               else st)
         else st)"

definition searchSosl :: "string \<Rightarrow> SearchRecord list Response \<Rightarrow> State \<Rightarrow> unit Promise \<times> State" where
  "searchSosl searchTerm response st =
     (case response of
        Ok searchRecords \<Rightarrow> (Resolved (), foldl (soslStep searchTerm) st searchRecords)
      | HttpError status body \<Rightarrow> (Resolved (), st)
      | NoAnswer \<Rightarrow> (Pending, st)
      | Threw \<Rightarrow> branchCatch GenericError st)"

section \<open>The dispatcher\<close>

text \<open>
  The answers of the remote side to the calls of one invocation, and the branches in the
  order the source pushes their promises.
\<close>

record Env =
  apexClassResponse :: "ApexClass list Response"
  triggerResponse :: "ApexTrigger list Response"
  flowResponse :: "Flow list Response"
  flowXmlResponse :: "string \<Rightarrow> string Response"
  lwcResponse :: "Bundle list Response"
  auraResponse :: "Bundle list Response"
  validationResponse :: "ValidationRule list Response"
  layoutResponse :: "Layout list Response"
  recordTypeResponse :: "RecordType list Response"
  soslResponse :: "SearchRecord list Response"

datatype Branch =
    ApexClasses
  | ApexTriggers
  | Flows
  | LightningWebComponents
  | AuraComponents
  | ValidationRules
  | PageLayouts
  | RecordTypes
  | SoslFallback

definition allBranches :: "Branch list" where
  "allBranches = [ApexClasses, ApexTriggers, Flows, LightningWebComponents, AuraComponents,
                  ValidationRules, PageLayouts, RecordTypes, SoslFallback]"

text \<open>
  Each branch runs up to its first \<^verbatim>\<open>await\<close> as soon as it is created, so the nine first
  calls go out at once and in this order.
\<close>

definition initialRequests :: "string \<Rightarrow> Target list" where
  "initialRequests searchTerm =
     [ToolingQuery ''ApexClass'' 8000,
      ToolingQuery ''ApexTrigger'' 6000,
      ToolingQuery ''Flow'' 15000,
      ToolingQuery ''LightningComponentBundle'' 8000,
      ToolingQuery ''AuraDefinitionBundle'' 8000,
      ToolingQuery ''ValidationRule'' 6000,
      ToolingQuery ''Layout'' 6000,
      Query ''RecordType'',
      Search (buildSosl searchTerm [''ApexClass'', ''ApexTrigger''])]"

text \<open>The rest of a branch, from the arrival of its answer to the settling of its promise.\<close>

definition runBranch :: "Env \<Rightarrow> string \<Rightarrow> Branch \<Rightarrow> State \<Rightarrow> unit Promise \<times> State" where
  "runBranch env searchTerm b st =
     (case b of
        ApexClasses \<Rightarrow> searchApexClasses searchTerm (apexClassResponse env) st
      | ApexTriggers \<Rightarrow> searchApexTriggers searchTerm (triggerResponse env) st
      | Flows \<Rightarrow> searchFlows searchTerm (flowResponse env) (flowXmlResponse env) st
      | LightningWebComponents \<Rightarrow> searchLwc searchTerm (lwcResponse env) st
      | AuraComponents \<Rightarrow> searchAura searchTerm (auraResponse env) st
      | ValidationRules \<Rightarrow> searchValidationRules searchTerm (validationResponse env) st
      | PageLayouts \<Rightarrow> searchLayouts searchTerm (layoutResponse env) st
      | RecordTypes \<Rightarrow> searchRecordTypes searchTerm (recordTypeResponse env) st
      | SoslFallback \<Rightarrow> searchSosl searchTerm (soslResponse env) st)"

text \<open>
  The branches settle in some order, the schedule: a list of branches, a permutation of
  \<^const>\<open>allBranches\<close> in a run of the program. \<^verbatim>\<open>Promise.allSettled\<close> waits for all of them.
\<close>

fun runBranches :: "Env \<Rightarrow> string \<Rightarrow> Branch list \<Rightarrow> State \<Rightarrow> unit Promise list \<times> State" where
  "runBranches env searchTerm [] st = ([], st)"
| "runBranches env searchTerm (b # bs) st =
     (let r = runBranch env searchTerm b st;
          rest = runBranches env searchTerm bs (snd r)
      in (fst r # fst rest, snd rest))"

section \<open>Merging and ranking\<close>

text \<open>\<^verbatim>\<open>acc.findIndex(p)\<close>, with \<open>None\<close> for \<^verbatim>\<open>-1\<close>.\<close>

fun findIndex :: "('a \<Rightarrow> bool) \<Rightarrow> 'a list \<Rightarrow> nat option" where
  "findIndex p [] = None"
| "findIndex p (x # xs) = (if p x then Some 0 else map_option Suc (findIndex p xs))"

definition resultKey :: "CodeSearchResult \<Rightarrow> string" where
  "resultKey item = type_r item @ ''-'' @ name item"

definition matchKey :: "Match \<Rightarrow> string" where
  "matchKey m = showNat (line m) @ ''-'' @ snippet m"

definition uniqueMatchesStep :: "Match list \<Rightarrow> Match \<Rightarrow> Match list" where
  "uniqueMatchesStep matchAcc m =
     (if find (\<lambda>x. matchKey x = matchKey m) matchAcc = None then matchAcc @ [m] else matchAcc)"

definition uniqueMatchesOf :: "Match list \<Rightarrow> Match list" where
  "uniqueMatchesOf combinedMatches = foldl uniqueMatchesStep [] combinedMatches"

definition mergeStep :: "CodeSearchResult list \<Rightarrow> CodeSearchResult \<Rightarrow> CodeSearchResult list" where
  "mergeStep acc current =
     (case findIndex (\<lambda>item. resultKey item = resultKey current) acc of
        None \<Rightarrow> acc @ [current]
      | Some existingIndex \<Rightarrow>
          (let existing = acc ! existingIndex;
               uniqueMatches = uniqueMatchesOf (matches existing @ matches current)
           in acc[existingIndex := existing\<lparr>matches := uniqueMatches,
                                             totalMatches := length uniqueMatches\<rparr>]))"

definition uniqueResults :: "CodeSearchResult list \<Rightarrow> CodeSearchResult list" where
  "uniqueResults rs = foldl mergeStep [] rs"

text \<open>
  \<^verbatim>\<open>a.name.localeCompare(b.name)\<close> is the collation of the platform. A collation orders
  strings by a sort key; the key \<open>ck\<close> is a parameter of the model, and the comparison is
  negative, zero or positive as the keys compare.
\<close>

definition localeCompare :: "(string \<Rightarrow> 'k::linorder) \<Rightarrow> string \<Rightarrow> string \<Rightarrow> int" where
  "localeCompare ck a b = (if ck a < ck b then - 1 else if ck b < ck a then 1 else 0)"

definition compareResults :: "(string \<Rightarrow> 'k::linorder) \<Rightarrow> CodeSearchResult \<Rightarrow> CodeSearchResult \<Rightarrow> int" where
  "compareResults ck a b =
     (let matchDiff = int (totalMatches b) - int (totalMatches a)
      in if matchDiff \<noteq> 0 then matchDiff else localeCompare ck (name a) (name b))"

text \<open>
  \<^verbatim>\<open>Array.prototype.sort\<close> with this comparison. The sort of the language is stable; it is
  modelled by insertion from the right, which puts an element before the elements it does
  not exceed.
\<close>

fun insertResult ::
  "(string \<Rightarrow> 'k::linorder) \<Rightarrow> CodeSearchResult \<Rightarrow> CodeSearchResult list \<Rightarrow> CodeSearchResult list" where
  "insertResult ck x [] = [x]"
| "insertResult ck x (y # ys) =
     (if compareResults ck x y \<le> 0 then x # y # ys else y # insertResult ck x ys)"

definition sortResults :: "(string \<Rightarrow> 'k::linorder) \<Rightarrow> CodeSearchResult list \<Rightarrow> CodeSearchResult list" where
  "sortResults ck rs = foldr (insertResult ck) rs []"

text \<open>Lines 1334 to 1384: deduplicate, sort, \<^verbatim>\<open>slice(0, 50)\<close>.\<close>

definition rankResults :: "(string \<Rightarrow> 'k::linorder) \<Rightarrow> CodeSearchResult list \<Rightarrow> CodeSearchResult list" where
  "rankResults ck rs = take 50 (sortResults ck (uniqueResults rs))"

section \<open>The entry point\<close>

text \<open>\<^verbatim>\<open>instanceUrl.replace(/\/$/, '')\<close>.\<close>

definition cleanUrl :: "string \<Rightarrow> string" where
  "cleanUrl instanceUrl =
     (if instanceUrl \<noteq> [] \<and> last instanceUrl = CHR ''/'' then butlast instanceUrl else instanceUrl)"

definition isTokenRejection :: "unit Promise \<Rightarrow> bool" where
  "isTokenRejection p =
     (case p of
        Rejected e \<Rightarrow> (case e of TokenExpiredError m \<Rightarrow> True | GenericError \<Rightarrow> False)
      | Resolved u \<Rightarrow> False
      | Pending \<Rightarrow> False)"

text \<open>The state in which the branches start: nothing found, the expression fresh.\<close>

definition initialState :: "string \<Rightarrow> State" where
  "initialState searchTerm = \<lparr> results = [], lastIndex = 0, requests = initialRequests searchTerm \<rparr>"

text \<open>
  \<^verbatim>\<open>Promise.allSettled\<close> of line 1322 resumes the function when every branch has settled:
  this is what it waits for.
\<close>

definition settled :: "Env \<Rightarrow> string \<Rightarrow> Branch list \<Rightarrow> unit Promise list" where
  "settled env searchTerm schedule = fst (runBranches env searchTerm schedule (initialState searchTerm))"

text \<open>
  The body of the \<^verbatim>\<open>try\<close> block after the validation of the inputs (lines 578 to 1384),
  once it is resumed: what it returns, or what it throws, and the calls it has issued. The
  loop over the settled promises throws the first token failure it meets.
\<close>

definition searchBody ::
  "(string \<Rightarrow> 'k::linorder) \<Rightarrow> Env \<Rightarrow> Branch list \<Rightarrow> string \<Rightarrow> (Error + CodeSearchResult list) \<times> Target list" where
  "searchBody ck env schedule searchTerm =
     (let run = runBranches env searchTerm schedule (initialState searchTerm)
      in (case find isTokenRejection (fst run) of
            Some (Rejected e) \<Rightarrow> (Inl e, requests (snd run))
          | Some (Resolved u) \<Rightarrow> (Inr (rankResults ck (results (snd run))), requests (snd run))
          | Some Pending \<Rightarrow> (Inr (rankResults ck (results (snd run))), requests (snd run))
          | None \<Rightarrow> (Inr (rankResults ck (results (snd run))), requests (snd run))))"

text \<open>
  \<^verbatim>\<open>searchCodeContent\<close>, lines 564 to 1390: the guard of line 573, the body, and the
  \<^verbatim>\<open>catch\<close> of line 1386 that turns whatever the body throws into an empty list. The value
  is how the returned promise settles, with the calls that went out; it stays pending when
  a branch does.
\<close>

definition searchCodeContent ::
  "(string \<Rightarrow> 'k::linorder) \<Rightarrow> Env \<Rightarrow> Branch list \<Rightarrow> string \<Rightarrow> string \<Rightarrow> string
     \<Rightarrow> CodeSearchResult list Promise \<times> Request list" where
  "searchCodeContent ck env schedule instanceUrl accessToken searchTerm =
     (if instanceUrl = [] \<or> accessToken = [] \<or> searchTerm = [] \<or> length searchTerm < 2
      then (Resolved [], [])
      else if Pending \<in> set (settled env searchTerm schedule)
      then (Pending,
            map (Request (cleanUrl instanceUrl) accessToken)
              (requests (snd (runBranches env searchTerm schedule (initialState searchTerm)))))
      else
        (let r = searchBody ck env schedule searchTerm
         in ((case fst r of
                Inl error \<Rightarrow> Resolved []
              | Inr uniqueResultsSorted \<Rightarrow> Resolved uniqueResultsSorted),
             map (Request (cleanUrl instanceUrl) accessToken) (snd r))))"

section \<open>The vocabulary of the specification\<close>

text \<open>
  The notions in which the specification speaks of the result list, written from its
  words. The identity of a result is its type and name; a match is identified by its line
  and snippet; deduplication keeps the first match of each identity, in order.
\<close>

definition identity :: "CodeSearchResult \<Rightarrow> string \<times> string" where
  "identity r = (type_r r, name r)"

definition matchIdentity :: "Match \<Rightarrow> nat \<times> string" where
  "matchIdentity m = (line m, snippet m)"

definition dedupMatches :: "Match list \<Rightarrow> Match list" where
  "dedupMatches ms =
     foldl (\<lambda>kept m. if matchIdentity m \<in> matchIdentity ` set kept then kept else kept @ [m]) [] ms"

text \<open>
  Grouping by identity: the identities in the order of their first entry, the entries of
  one identity in the order they were pushed, and the one result that stands for a group.
  A group of one is that entry; a larger group is its first entry with the deduplicated
  concatenation of all match lists of the group and the length of that as the total.
\<close>

definition firstIdentities :: "CodeSearchResult list \<Rightarrow> (string \<times> string) list" where
  "firstIdentities rs = rev (remdups (rev (map identity rs)))"

definition groupOf :: "CodeSearchResult list \<Rightarrow> string \<times> string \<Rightarrow> CodeSearchResult list" where
  "groupOf rs k = filter (\<lambda>r. identity r = k) rs"

definition mergedGroup :: "CodeSearchResult \<Rightarrow> CodeSearchResult list \<Rightarrow> CodeSearchResult" where
  "mergedGroup first others =
     (if others = [] then first
      else first\<lparr>matches := dedupMatches (concat (map matches (first # others))),
                 totalMatches := length (dedupMatches (concat (map matches (first # others))))\<rparr>)"

definition groupedResults :: "CodeSearchResult list \<Rightarrow> CodeSearchResult list" where
  "groupedResults rs = map (\<lambda>k. mergedGroup (hd (groupOf rs k)) (tl (groupOf rs k))) (firstIdentities rs)"

text \<open>
  Ranking: \<open>a\<close> may stand before \<open>b\<close> when it has more matches, or as many and a name that
  does not come later in the collation. The pair \<^term>\<open>sortKey ck r\<close> orders results the same
  way.
\<close>

definition inOrder :: "(string \<Rightarrow> 'k::linorder) \<Rightarrow> CodeSearchResult \<Rightarrow> CodeSearchResult \<Rightarrow> bool" where
  "inOrder ck a b =
     (totalMatches a > totalMatches b
      \<or> (totalMatches a = totalMatches b \<and> localeCompare ck (name a) (name b) \<le> 0))"

definition sortKey :: "(string \<Rightarrow> 'k::linorder) \<Rightarrow> CodeSearchResult \<Rightarrow> int \<times> 'k" where
  "sortKey ck r = (- int (totalMatches r), ck (name r))"

text \<open>
  What every entry of the \<^verbatim>\<open>results\<close> array satisfies: its total is the length of its
  match list, and its type is one of the eight literals of the branches.
\<close>

definition knownTypes :: "string list" where
  "knownTypes = [''apex-class'', ''apex-trigger'', ''flow'', ''lwc-bundle'', ''aura-bundle'',
                 ''validation-rule'', ''page-layout'', ''record-type'']"

text \<open>The type can be read off a key \<^verbatim>\<open>`${type}-${name}`\<close>: the first character decides,
  and the sixth where the first is \<^verbatim>\<open>a\<close>.\<close>

definition typeOfKey :: "string \<Rightarrow> string" where
  "typeOfKey k =
     (if k ! 0 = CHR ''f'' then ''flow''
      else if k ! 0 = CHR ''l'' then ''lwc-bundle''
      else if k ! 0 = CHR ''v'' then ''validation-rule''
      else if k ! 0 = CHR ''p'' then ''page-layout''
      else if k ! 0 = CHR ''r'' then ''record-type''
      else if k ! 5 = CHR ''c'' then ''apex-class''
      else if k ! 5 = CHR ''t'' then ''apex-trigger''
      else ''aura-bundle'')"

definition sound :: "CodeSearchResult \<Rightarrow> bool" where
  "sound r = (totalMatches r = length (matches r) \<and> type_r r \<in> set knownTypes)"

definition counted :: "State \<Rightarrow> bool" where
  "counted st = list_all sound (results st)"

text \<open>
  Failures of a remote call. An authentication failure is a response with status 401 or
  with the error code \<^verbatim>\<open>INVALID_SESSION_ID\<close> in its body. A call fails otherwise when it
  throws or comes back not ok without being an authentication failure. A call under a
  timer times out when it is unanswered; a call without a timer cannot time out. The first
  call of a branch is the query that enumerates its items; seven branches make it through
  \<^verbatim>\<open>toolingQuery\<close>, under a timer, and the record types and the full-text fallback
  without one.
\<close>

definition authFailure :: "'a Response \<Rightarrow> bool" where
  "authFailure response =
     (case response of
        HttpError status body \<Rightarrow>
          (status = 401 \<or> (case body of ErrorJson errorCode message \<Rightarrow> errorCode = ''INVALID_SESSION_ID''
                                      | NotJson \<Rightarrow> False))
      | Ok x \<Rightarrow> False
      | NoAnswer \<Rightarrow> False
      | Threw \<Rightarrow> False)"

definition failedOtherwise :: "'a Response \<Rightarrow> bool" where
  "failedOtherwise response =
     (case response of
        HttpError status body \<Rightarrow>
          (status \<noteq> 401 \<and> (case body of ErrorJson errorCode message \<Rightarrow> errorCode \<noteq> ''INVALID_SESSION_ID''
                                         | NotJson \<Rightarrow> True))
      | Ok x \<Rightarrow> False
      | NoAnswer \<Rightarrow> False
      | Threw \<Rightarrow> True)"







section \<open>Concrete invocations\<close>

text \<open>
  An invocation in which every call succeeds and finds nothing, to be varied in one or two
  answers; and the collation by code units, for runs that need a concrete one.
\<close>

definition quietEnv :: Env where
  "quietEnv =
     \<lparr> apexClassResponse = Ok [], triggerResponse = Ok [], flowResponse = Ok [],
       flowXmlResponse = (\<lambda>flowId. Ok []), lwcResponse = Ok [], auraResponse = Ok [],
       validationResponse = Ok [], layoutResponse = Ok [], recordTypeResponse = Ok [],
       soslResponse = Ok [] \<rparr>"

definition codeUnits :: "string \<Rightarrow> nat list" where
  "codeUnits s = map of_char s"

section \<open>Concrete records and results\<close>

text \<open>
  A class and two triggers whose body has the term \<^verbatim>\<open>ab\<close> on its second line only, the
  record the full-text search returns for the class, and the results the branches build
  from them.
\<close>

definition twoLines :: string where
  "twoLines = ''x'' @ [newline] @ ''ab''"

definition fooClass :: ApexClass where
  "fooClass = \<lparr> cls_Id = ''01p1'', cls_Name = ''Foo'', cls_Body = twoLines \<rparr>"

definition fooTrigger :: ApexTrigger where
  "fooTrigger = \<lparr> trigger_Id = ''01q1'', trigger_Name = ''Foo'', trigger_Body = twoLines,
                  trigger_TableEnumOrId = ''Account'' \<rparr>"

definition barTrigger :: ApexTrigger where
  "barTrigger = \<lparr> trigger_Id = ''01q2'', trigger_Name = ''Bar'', trigger_Body = twoLines,
                  trigger_TableEnumOrId = ''Account'' \<rparr>"

definition fooRecord :: SearchRecord where
  "fooRecord = \<lparr> record_type = ''ApexClass'', record_Id = ''01p1'', record_Name = ''Foo'' \<rparr>"

definition lineTwoMatch :: "string \<Rightarrow> Match" where
  "lineTwoMatch ty = \<lparr> line = 2, content = ''1: x'' @ [newline] @ ''2: ab'', snippet = ''ab'',
                        context_m = ''Line 2 ('' @ ty @ '')'' \<rparr>"

definition fooClassResult :: CodeSearchResult where
  "fooClassResult = \<lparr> id_r = ''apex-class-01p1'', type_r = ''apex-class'', name = ''Foo'', label = ''Foo'',
       fileName = ''Foo.cls'', matches = [lineTwoMatch ''apex-class''], totalMatches = 1 \<rparr>"

definition triggerResult :: "string \<Rightarrow> string \<Rightarrow> CodeSearchResult" where
  "triggerResult ident nm = \<lparr> id_r = ''apex-trigger-'' @ ident, type_r = ''apex-trigger'', name = nm,
       label = nm @ '' (Account)'', fileName = nm @ ''.trigger'',
       matches = [lineTwoMatch ''apex-trigger''], totalMatches = 1 \<rparr>"

definition fooFallbackEntry :: CodeSearchResult where
  "fooFallbackEntry = \<lparr> id_r = ''apex-class-01p1'', type_r = ''apex-class'', name = ''Foo'', label = ''Foo'',
       fileName = ''Foo.cls'', matches = [soslMatch ''ab''], totalMatches = 1 \<rparr>"

definition fooFallbackResult :: CodeSearchResult where
  "fooFallbackResult = \<lparr> id_r = ''apex-class-01p1'', type_r = ''apex-class'', name = ''Foo'', label = ''Foo'',
       fileName = ''Foo.cls'', matches = [soslMatch ''ab'', lineTwoMatch ''apex-class''], totalMatches = 2 \<rparr>"

text \<open>
  Invocations: a class and a trigger of one name; a class and a trigger of two names; a
  class that the full-text search finds too; a class and a namesake of another id that
  only the full-text search finds; the class and the other trigger with a session that has
  expired, or with a query for the classes that is aborted by its timer.
\<close>

definition tieEnv :: Env where
  "tieEnv = quietEnv\<lparr>apexClassResponse := Ok [fooClass], triggerResponse := Ok [fooTrigger]\<rparr>"

definition twoEnv :: Env where
  "twoEnv = quietEnv\<lparr>apexClassResponse := Ok [fooClass], triggerResponse := Ok [barTrigger]\<rparr>"

definition mergeEnv :: Env where
  "mergeEnv = quietEnv\<lparr>apexClassResponse := Ok [fooClass], soslResponse := Ok [fooRecord]\<rparr>"




definition authEnv :: Env where
  "authEnv = twoEnv\<lparr>apexClassResponse :=
                HttpError 401 (ErrorJson ''INVALID_SESSION_ID'' (Some ''Session expired or invalid''))\<rparr>"


text \<open>
  A component bundle whose name begins with the term \<^verbatim>\<open>account\<close>, and a class with the term
  \<^verbatim>\<open>ab\<close> on both of its two lines.
\<close>

definition accountBundle :: Bundle where
  "accountBundle = \<lparr> bundle_Id = ''0Rb1'', bundle_DeveloperName = ''accountList'',
                      bundle_MasterLabel = ''Customer list'', bundle_Description = [] \<rparr>"

definition lwcEnv :: Env where
  "lwcEnv = quietEnv\<lparr>lwcResponse := Ok [accountBundle]\<rparr>"

definition accountResult :: CodeSearchResult where
  "accountResult = \<lparr> id_r = ''lwc-bundle-0Rb1'', type_r = ''lwc-bundle'', name = ''accountList'',
       label = ''Customer list'', fileName = ''accountList.js'', matches = [], totalMatches = 0 \<rparr>"

definition repeated :: string where
  "repeated = ''ab'' @ [newline] @ ''ab''"

definition repeatedClass :: ApexClass where
  "repeatedClass = \<lparr> cls_Id = ''01p2'', cls_Name = ''Twice'', cls_Body = repeated \<rparr>"

definition repeatEnv :: Env where
  "repeatEnv = quietEnv\<lparr>apexClassResponse := Ok [repeatedClass]\<rparr>"

definition twiceResult :: "nat \<Rightarrow> CodeSearchResult" where
  "twiceResult ln = \<lparr> id_r = ''apex-class-01p2'', type_r = ''apex-class'', name = ''Twice'',
       label = ''Twice'', fileName = ''Twice.cls'',
       matches = [\<lparr> line = ln, content = ''1: ab'' @ [newline] @ ''2: ab'', snippet = ''ab'',
                    context_m = ''Line '' @ showNat ln @ '' (apex-class)'' \<rparr>],
       totalMatches = 1 \<rparr>"





















definition crowdEntry :: "nat \<Rightarrow> CodeSearchResult" where
  "crowdEntry i = \<lparr> id_r = ''apex-class-'' @ replicate (Suc i) CHR ''a'', type_r = ''apex-class'',
       name = replicate (Suc i) CHR ''a'', label = replicate (Suc i) CHR ''a'',
       fileName = replicate (Suc i) CHR ''a'' @ ''.cls'',
       matches = [soslMatch ''ab''], totalMatches = 1 \<rparr>"







text \<open>
  Two more orders in which the nine branches may settle (\<^const>\<open>allBranches\<close> is the order of
  the source), and the outcome of nine branches none of which is rejected.
\<close>

definition triggersFirst :: "Branch list" where
  "triggersFirst = [ApexTriggers, ApexClasses, Flows, LightningWebComponents, AuraComponents,
                    ValidationRules, PageLayouts, RecordTypes, SoslFallback]"

definition fallbackFirst :: "Branch list" where
  "fallbackFirst = [SoslFallback, ApexClasses, ApexTriggers, Flows, LightningWebComponents,
                    AuraComponents, ValidationRules, PageLayouts, RecordTypes]"

definition nineResolved :: "unit Promise list" where
  "nineResolved = [Resolved (), Resolved (), Resolved (), Resolved (), Resolved (), Resolved (),
                    Resolved (), Resolved (), Resolved ()]"

section \<open>Properties of the escaping\<close>

lemma backslash_reserved: "backslash \<in> set sosl_reserved"
  by (simp add: sosl_reserved_def backslash_def)

lemma unescape_unreserved_head:
  "c \<notin> set sosl_reserved \<Longrightarrow> unescapeSOSL (c # cs) = c # unescapeSOSL cs"
  using backslash_reserved by (cases cs) auto

text \<open>
  Claim C7. escapeSOSL puts exactly one backslash before every reserved character
  (\<open>? & | ! { } [ ] ( ) ^ ~ * : \ " ' + -\<close>) and copies every other character; it works
  character by character, so the escaped form is longer by the number of reserved
  characters, and dropping the inserted backslash before each reserved character gives
  the original string back.
\<close>

theorem escapeSOSL_roundtrip:
  "unescapeSOSL (escapeSOSL s) = s
   \<and> escapeSOSL (s @ t) = escapeSOSL s @ escapeSOSL t
   \<and> escapeSOSL [c] = (if c \<in> set ''?&|!{}[]()^~*:+-'' \<union> {CHR 0x5C, CHR 0x22, CHR 0x27}
                        then [CHR 0x5C, c] else [c])
   \<and> length (escapeSOSL s) = length s + length (filter (\<lambda>c. c \<in> set sosl_reserved) s)"
proof -
  have a: "unescapeSOSL (escapeSOSL s) = s"
    by (induction s) (simp_all add: unescape_unreserved_head)
  have b: "escapeSOSL (s @ t) = escapeSOSL s @ escapeSOSL t"
    by (induction s) simp_all
  have c: "escapeSOSL [c] = (if c \<in> set ''?&|!{}[]()^~*:+-'' \<union> {CHR 0x5C, CHR 0x22, CHR 0x27}
                        then [CHR 0x5C, c] else [c])"
    by (auto simp: sosl_reserved_def backslash_def)
  have d: "length (escapeSOSL s) = length s + length (filter (\<lambda>c. c \<in> set sosl_reserved) s)"
    by (induction s) simp_all
  from a b c d show ?thesis by blast
qed

theorem escapeSOSL_roundtrip_witness:
  "unescapeSOSL (escapeSOSL ''a+b'') = ''a+b'' \<and> escapeSOSL ''a+b'' = [CHR ''a'', CHR 0x5C, CHR ''+'', CHR ''b'']"
  using escapeSOSL_roundtrip [of "''a+b''"] by (simp add: sosl_reserved_def backslash_def)

section \<open>Searching lists\<close>

lemma findIndex_None: "findIndex p xs = None \<longleftrightarrow> (\<forall>x\<in>set xs. \<not> p x)"
  by (induction xs) auto

lemma findIndex_Some:
  "findIndex p xs = Some i \<Longrightarrow> i < length xs \<and> p (xs ! i) \<and> (\<forall>j<i. \<not> p (xs ! j))"
proof (induction xs arbitrary: i)
  case Nil
  then show ?case by simp
next
  case (Cons x xs)
  show ?case
  proof (cases "p x")
    case True
    with Cons.prems show ?thesis by simp
  next
    case False
    with Cons.prems obtain k where k: "findIndex p xs = Some k" "i = Suc k" by auto
    from Cons.IH [OF k(1)] False k(2) show ?thesis
      by (auto simp: nth_Cons split: nat.splits)
  qed
qed

lemma find_None: "find p xs = None \<longleftrightarrow> (\<forall>x\<in>set xs. \<not> p x)"
  by (auto simp: find_None_iff)

section \<open>Deduplication of matches\<close>

lemma uniqueMatchesStep_keys:
  "matchKey ` set (uniqueMatchesStep acc m) = insert (matchKey m) (matchKey ` set acc)"
  by (auto simp: uniqueMatchesStep_def find_None image_iff) metis

lemma uniqueMatchesStep_distinct:
  "distinct (map matchKey acc) \<Longrightarrow> distinct (map matchKey (uniqueMatchesStep acc m))"
  by (auto simp: uniqueMatchesStep_def find_None)

lemma uniqueMatchesStep_set: "set (uniqueMatchesStep acc m) \<subseteq> insert m (set acc)"
  by (auto simp: uniqueMatchesStep_def)

lemma uniqueMatches_foldl_keys:
  "matchKey ` set (foldl uniqueMatchesStep acc ms) = matchKey ` set acc \<union> matchKey ` set ms"
proof (induction ms arbitrary: acc)
  case Nil
  show ?case by simp
next
  case (Cons m ms)
  show ?case by (simp add: Cons.IH uniqueMatchesStep_keys)
qed

lemma uniqueMatches_foldl_distinct:
  "distinct (map matchKey acc) \<Longrightarrow> distinct (map matchKey (foldl uniqueMatchesStep acc ms))"
proof (induction ms arbitrary: acc)
  case Nil
  then show ?case by simp
next
  case (Cons m ms)
  from Cons.IH [OF uniqueMatchesStep_distinct [OF Cons.prems]] show ?case by simp
qed

lemma uniqueMatches_foldl_set:
  "set (foldl uniqueMatchesStep acc ms) \<subseteq> set acc \<union> set ms"
proof (induction ms arbitrary: acc)
  case Nil
  show ?case by simp
next
  case (Cons m ms)
  from Cons.IH [of "uniqueMatchesStep acc m"] uniqueMatchesStep_set [of acc m]
  show ?case by auto
qed

lemma uniqueMatches_foldl_id:
  "distinct (map matchKey acc) \<Longrightarrow> foldl uniqueMatchesStep [] acc = acc"
proof (induction acc rule: rev_induct)
  case Nil
  show ?case by simp
next
  case (snoc a acc)
  then have "foldl uniqueMatchesStep [] acc = acc" by simp
  moreover have "uniqueMatchesStep acc a = acc @ [a]"
  proof -
    from snoc.prems have "\<forall>x\<in>set acc. matchKey x \<noteq> matchKey a" by (auto simp: image_iff)
    then show ?thesis by (simp add: uniqueMatchesStep_def find_None)
  qed
  ultimately show ?case by simp
qed

lemma uniqueMatches_foldl_prefix:
  "distinct (map matchKey acc) \<Longrightarrow> foldl uniqueMatchesStep [] (acc @ ms) = foldl uniqueMatchesStep acc ms"
  by (simp add: uniqueMatches_foldl_id)

lemma uniqueMatchesOf_idem:
  "uniqueMatchesOf (uniqueMatchesOf xs @ ys) = uniqueMatchesOf (xs @ ys)"
  unfolding uniqueMatchesOf_def
  using uniqueMatches_foldl_prefix [OF uniqueMatches_foldl_distinct [of "[]" xs], of ys]
  by simp

section \<open>Decimal numerals and the key of a match\<close>

lemma digitChar_not_dash: "d < 10 \<Longrightarrow> digitChar d \<noteq> CHR ''-''"
proof -
  assume "d < 10"
  then have "d \<in> {0,1,2,3,4,5,6,7,8,9}" by auto
  then show ?thesis by (auto simp: digitChar_def)
qed

lemma digitChar_inj: "a < 10 \<Longrightarrow> b < 10 \<Longrightarrow> digitChar a = digitChar b \<Longrightarrow> a = b"
proof -
  assume "a < 10" "b < 10" and e: "digitChar a = digitChar b"
  then have "a \<in> {0,1,2,3,4,5,6,7,8,9}" "b \<in> {0,1,2,3,4,5,6,7,8,9}" by auto
  with e show ?thesis by (auto simp: digitChar_def)
qed

lemma showNat_no_dash: "CHR ''-'' \<notin> set (showNat n)"
proof (induction n rule: showNat.induct)
  case (1 n)
  show ?case
  proof (cases "n < 10")
    case True
    then show ?thesis using digitChar_not_dash [of n] by (subst showNat.simps) auto
  next
    case False
    then show ?thesis using 1 digitChar_not_dash [of "n mod 10"]
      by (subst showNat.simps) auto
  qed
qed

lemma showNat_nonempty: "showNat n \<noteq> []"
  by (subst showNat.simps) simp

lemma showNat_inj: "showNat a = showNat b \<Longrightarrow> a = b"
proof (induction a arbitrary: b rule: showNat.induct)
  case (1 a)
  show ?case
  proof (cases "a < 10")
    case True
    show ?thesis
    proof (cases "b < 10")
      case bs: True
      from "1.prems" True bs have "digitChar a = digitChar b"
        by (simp add: showNat.simps [of a] showNat.simps [of b])
      then show ?thesis using True bs digitChar_inj by blast
    next
      case bl: False
      from "1.prems" True bl have "[digitChar a] = showNat (b div 10) @ [digitChar (b mod 10)]"
        by (simp add: showNat.simps [of a] showNat.simps [of b])
      then show ?thesis using showNat_nonempty [of "b div 10"] by (simp add: Cons_eq_append_conv)
    qed
  next
    case False
    show ?thesis
    proof (cases "b < 10")
      case bs: True
      from "1.prems" False bs have "showNat (a div 10) @ [digitChar (a mod 10)] = [digitChar b]"
        by (simp add: showNat.simps [of a] showNat.simps [of b])
      then show ?thesis using showNat_nonempty [of "a div 10"] by (simp add: append_eq_Cons_conv)
    next
      case bl: False
      from "1.prems" False bl
      have e: "showNat (a div 10) @ [digitChar (a mod 10)] = showNat (b div 10) @ [digitChar (b mod 10)]"
        by (simp add: showNat.simps [of a] showNat.simps [of b])
      then have "showNat (a div 10) = showNat (b div 10)" "digitChar (a mod 10) = digitChar (b mod 10)"
        by simp_all
      then have "a div 10 = b div 10" "a mod 10 = b mod 10"
        using "1.IH" [OF False] digitChar_inj [of "a mod 10" "b mod 10"] by simp_all
      then show ?thesis by (metis div_mult_mod_eq)
    qed
  qed
qed

lemma split_at_first_dash:
  "CHR ''-'' \<notin> set p \<Longrightarrow> CHR ''-'' \<notin> set q \<Longrightarrow> p @ CHR ''-'' # s = q @ CHR ''-'' # t \<Longrightarrow> p = q \<and> s = t"
proof (induction p arbitrary: q)
  case Nil
  then show ?case by (cases q) auto
next
  case (Cons a p)
  then show ?case by (cases q) auto
qed

lemma matchKey_eq_iff: "matchKey a = matchKey b \<longleftrightarrow> line a = line b \<and> snippet a = snippet b"
  using split_at_first_dash [OF showNat_no_dash showNat_no_dash, of "line a" "snippet a" "line b" "snippet b"]
    showNat_inj [of "line a" "line b"]
  by (auto simp: matchKey_def)

section \<open>Keys and identities\<close>

lemma uniqueMatchesStep_identity:
  "uniqueMatchesStep kept m = (if matchIdentity m \<in> matchIdentity ` set kept then kept else kept @ [m])"
proof -
  have "(\<forall>x\<in>set kept. matchKey x \<noteq> matchKey m) \<longleftrightarrow> matchIdentity m \<notin> matchIdentity ` set kept"
    by (auto simp: matchKey_eq_iff matchIdentity_def image_iff)
  then show ?thesis by (simp add: uniqueMatchesStep_def find_None)
qed

lemma uniqueMatchesOf_dedup: "uniqueMatchesOf ms = dedupMatches ms"
proof -
  have "uniqueMatchesStep = (\<lambda>kept m. if matchIdentity m \<in> matchIdentity ` set kept then kept else kept @ [m])"
    by (intro ext) (rule uniqueMatchesStep_identity)
  then show ?thesis by (simp add: uniqueMatchesOf_def dedupMatches_def)
qed

lemma dedupMatches_idem: "dedupMatches (dedupMatches xs @ ys) = dedupMatches (xs @ ys)"
  using uniqueMatchesOf_idem [of xs ys] by (simp add: uniqueMatchesOf_dedup)

lemma typeOfKey_known: "\<forall>t\<in>set knownTypes. typeOfKey (t @ ''-'' @ n) = t"
  by (simp add: knownTypes_def typeOfKey_def)

lemma known_key_inj:
  assumes "t1 \<in> set knownTypes" "t2 \<in> set knownTypes" "t1 @ ''-'' @ n1 = t2 @ ''-'' @ n2"
  shows "t1 = t2 \<and> n1 = n2"
proof -
  from assms(1) typeOfKey_known [of n1] have "typeOfKey (t1 @ ''-'' @ n1) = t1" by blast
  moreover from assms(2) typeOfKey_known [of n2] have "typeOfKey (t2 @ ''-'' @ n2) = t2" by blast
  ultimately have "t1 = t2" using assms(3) by simp
  with assms(3) show ?thesis by simp
qed

lemma resultKey_eq_iff:
  "sound a \<Longrightarrow> sound b \<Longrightarrow> (resultKey a = resultKey b) = (identity a = identity b)"
  using known_key_inj [of "type_r a" "type_r b" "name a" "name b"]
  by (auto simp: sound_def resultKey_def identity_def)

lemma findIndex_cong:
  "(\<And>x. x \<in> set xs \<Longrightarrow> p x = q x) \<Longrightarrow> findIndex p xs = findIndex q xs"
  by (induction xs) simp_all

lemma mergeStep_identity:
  assumes "list_all sound acc" and "sound c"
  shows "mergeStep acc c =
     (case findIndex (\<lambda>item. identity item = identity c) acc of
        None \<Rightarrow> acc @ [c]
      | Some i \<Rightarrow> acc[i := (acc ! i)\<lparr>matches := dedupMatches (matches (acc ! i) @ matches c),
                     totalMatches := length (dedupMatches (matches (acc ! i) @ matches c))\<rparr>])"
proof -
  have "findIndex (\<lambda>item. resultKey item = resultKey c) acc = findIndex (\<lambda>item. identity item = identity c) acc"
    using assms by (intro findIndex_cong) (simp add: resultKey_eq_iff list_all_iff)
  then show ?thesis by (simp add: mergeStep_def Let_def uniqueMatchesOf_dedup split: option.splits)
qed

section \<open>Grouping\<close>

lemma uniqueResults_snoc: "uniqueResults (rs @ [c]) = mergeStep (uniqueResults rs) c"
  by (simp add: uniqueResults_def)

lemma firstIdentities_snoc:
  "firstIdentities (rs @ [c]) =
     (if identity c \<in> set (firstIdentities rs) then firstIdentities rs else firstIdentities rs @ [identity c])"
  by (simp add: firstIdentities_def)

lemma firstIdentities_set: "set (firstIdentities rs) = identity ` set rs"
  by (simp add: firstIdentities_def)

lemma firstIdentities_distinct: "distinct (firstIdentities rs)"
  by (simp add: firstIdentities_def)

lemma groupOf_nonempty: "k \<in> set (firstIdentities rs) \<Longrightarrow> groupOf rs k \<noteq> []"
  by (auto simp: firstIdentities_set groupOf_def filter_empty_conv)

lemma groupOf_hd: "groupOf rs k \<noteq> [] \<Longrightarrow> identity (hd (groupOf rs k)) = k \<and> hd (groupOf rs k) \<in> set rs"
proof -
  assume "groupOf rs k \<noteq> []"
  then have "hd (groupOf rs k) \<in> set (groupOf rs k)" by simp
  then show ?thesis by (simp add: groupOf_def)
qed

lemma mergedGroup_identity: "identity (mergedGroup x others) = identity x"
  by (simp add: mergedGroup_def identity_def)

lemma mergedGroup_sound: "sound x \<Longrightarrow> sound (mergedGroup x others)"
  by (simp add: mergedGroup_def sound_def)

lemma groupedResults_identities: "map identity (groupedResults rs) = firstIdentities rs"
proof -
  have "\<forall>k\<in>set (firstIdentities rs). identity (mergedGroup (hd (groupOf rs k)) (tl (groupOf rs k))) = k"
    by (simp add: mergedGroup_identity groupOf_hd groupOf_nonempty)
  then show ?thesis by (simp add: groupedResults_def map_idI comp_def)
qed

lemma groupedResults_sound: "list_all sound rs \<Longrightarrow> list_all sound (groupedResults rs)"
proof -
  assume a: "list_all sound rs"
  have "\<forall>k\<in>set (firstIdentities rs). sound (mergedGroup (hd (groupOf rs k)) (tl (groupOf rs k)))"
  proof
    fix k assume "k \<in> set (firstIdentities rs)"
    then have "hd (groupOf rs k) \<in> set rs" using groupOf_hd groupOf_nonempty by blast
    with a show "sound (mergedGroup (hd (groupOf rs k)) (tl (groupOf rs k)))"
      by (simp add: mergedGroup_sound list_all_iff)
  qed
  then show ?thesis by (simp add: groupedResults_def list_all_iff)
qed

lemma groupOf_snoc: "groupOf (rs @ [c]) k = groupOf rs k @ (if identity c = k then [c] else [])"
  by (simp add: groupOf_def)

lemma mergedGroup_snoc:
  "mergedGroup x (others @ [c]) =
     (mergedGroup x others)\<lparr>matches := dedupMatches (matches (mergedGroup x others) @ matches c),
       totalMatches := length (dedupMatches (matches (mergedGroup x others) @ matches c))\<rparr>"
proof (cases "others = []")
  case True
  then show ?thesis by (simp add: mergedGroup_def)
next
  case False
  then show ?thesis
    using dedupMatches_idem [of "matches x @ concat (map matches others)" "matches c"]
    by (simp add: mergedGroup_def)
qed

lemma groupedResults_snoc:
  assumes snd: "list_all sound (rs @ [c])"
  shows "groupedResults (rs @ [c]) = mergeStep (groupedResults rs) c"
proof -
  from snd have sc: "sound c" and sg: "list_all sound (groupedResults rs)"
    by (simp_all add: groupedResults_sound)
  note step = mergeStep_identity [OF sg sc]
  show ?thesis
  proof (cases "identity c \<in> set (firstIdentities rs)")
    case False
    then have "\<forall>x\<in>set (groupedResults rs). identity x \<noteq> identity c"
      using groupedResults_identities [of rs] by (metis image_eqI set_map)
    then have none: "findIndex (\<lambda>item. identity item = identity c) (groupedResults rs) = None"
      by (simp add: findIndex_None)
    have same: "\<forall>k\<in>set (firstIdentities rs). groupOf (rs @ [c]) k = groupOf rs k"
      using False by (auto simp: groupOf_snoc)
    have new: "groupOf (rs @ [c]) (identity c) = [c]"
    proof -
      from False have "\<forall>x\<in>set rs. identity x \<noteq> identity c" by (auto simp: firstIdentities_set image_iff)
      then show ?thesis by (simp add: groupOf_def)
    qed
    have "groupedResults (rs @ [c]) = groupedResults rs @ [c]"
      using False same new by (simp add: groupedResults_def firstIdentities_snoc mergedGroup_def)
    with none show ?thesis by (simp add: step)
  next
    case True
    let ?M = "\<lambda>rs k. mergedGroup (hd (groupOf rs k)) (tl (groupOf rs k))"
    let ?k = "identity c"
    obtain i where i: "findIndex (\<lambda>item. identity item = ?k) (groupedResults rs) = Some i"
    proof (cases "findIndex (\<lambda>item. identity item = ?k) (groupedResults rs)")
      case None
      then have "?k \<notin> set (map identity (groupedResults rs))" by (auto simp: findIndex_None)
      with True show ?thesis by (simp add: groupedResults_identities)
    next
      case (Some j)
      then show ?thesis using that by blast
    qed
    have len: "length (groupedResults rs) = length (firstIdentities rs)"
      by (simp add: groupedResults_def)
    from findIndex_Some [OF i]
    have il: "i < length (firstIdentities rs)" and ik: "identity (groupedResults rs ! i) = ?k"
      unfolding len by blast+
    have ki: "firstIdentities rs ! i = ?k"
      using ik il groupedResults_identities [of rs] by (metis length_map nth_map)
    have gi: "groupedResults rs ! i = ?M rs ?k"
      using il ki by (simp add: groupedResults_def)
    have ne: "groupOf rs ?k \<noteq> []" using True by (rule groupOf_nonempty)
    have upd: "?M (rs @ [c]) ?k =
        (?M rs ?k)\<lparr>matches := dedupMatches (matches (?M rs ?k) @ matches c),
          totalMatches := length (dedupMatches (matches (?M rs ?k) @ matches c))\<rparr>"
      using ne by (simp add: groupOf_snoc mergedGroup_snoc)
    have lhs: "groupedResults (rs @ [c]) = map (?M (rs @ [c])) (firstIdentities rs)"
      using True by (simp add: groupedResults_def firstIdentities_snoc)
    have "map (?M (rs @ [c])) (firstIdentities rs) = (map (?M rs) (firstIdentities rs))[i := ?M (rs @ [c]) ?k]"
    proof (rule nth_equalityI)
      show "length (map (?M (rs @ [c])) (firstIdentities rs))
            = length ((map (?M rs) (firstIdentities rs))[i := ?M (rs @ [c]) ?k])"
        by simp
    next
      fix j assume "j < length (map (?M (rs @ [c])) (firstIdentities rs))"
      then have jl: "j < length (firstIdentities rs)" by simp
      show "map (?M (rs @ [c])) (firstIdentities rs) ! j
            = (map (?M rs) (firstIdentities rs))[i := ?M (rs @ [c]) ?k] ! j"
      proof (cases "j = i")
        case True
        then show ?thesis using il ki by simp
      next
        case False
        then have "firstIdentities rs ! j \<noteq> ?k"
          using firstIdentities_distinct [of rs] jl il ki by (metis nth_eq_iff_index_eq)
        then have "groupOf (rs @ [c]) (firstIdentities rs ! j) = groupOf rs (firstIdentities rs ! j)"
          by (auto simp: groupOf_snoc)
        then show ?thesis using False jl by simp
      qed
    qed
    with lhs upd have "groupedResults (rs @ [c]) =
        (groupedResults rs)[i := (groupedResults rs ! i)
           \<lparr>matches := dedupMatches (matches (groupedResults rs ! i) @ matches c),
             totalMatches := length (dedupMatches (matches (groupedResults rs ! i) @ matches c))\<rparr>]"
      using gi by (simp add: groupedResults_def)
    then show ?thesis using i by (simp add: step)
  qed
qed

lemma uniqueResults_grouped: "list_all sound rs \<Longrightarrow> uniqueResults rs = groupedResults rs"
proof (induction rs rule: rev_induct)
  case Nil
  show ?case by (simp add: uniqueResults_def groupedResults_def firstIdentities_def)
next
  case (snoc c rs)
  then have "uniqueResults rs = groupedResults rs" by simp
  then show ?case using groupedResults_snoc [OF snoc.prems] by (simp add: uniqueResults_snoc)
qed

lemma groupedResults_distinct: "distinct (map identity (groupedResults rs))"
  by (simp add: groupedResults_identities firstIdentities_distinct)

section \<open>Sorting\<close>

lemma compareResults_le_iff: "compareResults ck x y \<le> 0 \<longleftrightarrow> sortKey ck x \<le> sortKey ck y"
  by (auto simp: compareResults_def localeCompare_def sortKey_def Let_def less_eq_prod_def)


lemma inOrder_iff: "inOrder ck x y \<longleftrightarrow> sortKey ck x \<le> sortKey ck y"
  by (auto simp: inOrder_def localeCompare_def sortKey_def less_eq_prod_def)

lemma insertResult_insort: "insertResult ck x ys = insort_key (sortKey ck) x ys"
  by (induction ys) (simp_all add: compareResults_le_iff)

lemma sortResults_sort_key: "sortResults ck rs = sort_key (sortKey ck) rs"
proof -
  have "insertResult ck = insort_key (sortKey ck)"
    by (intro ext) (rule insertResult_insort)
  then show ?thesis by (simp add: sortResults_def sort_key_def)
qed

lemma sortResults_sorted: "sorted_wrt (inOrder ck) (sortResults ck rs)"
proof -
  have "sorted (map (sortKey ck) (sort_key (sortKey ck) rs))" by (rule sorted_sort_key)
  then show ?thesis
    by (simp add: sortResults_sort_key sorted_map inOrder_iff [abs_def])
qed

lemma sortResults_mset: "mset (sortResults ck rs) = mset rs"
  by (simp add: sortResults_sort_key)

lemma sortResults_set: "set (sortResults ck rs) = set rs"
  using sortResults_mset [of ck rs] by (metis set_mset_mset)

lemma rankResults_sorted: "sorted_wrt (inOrder ck) (rankResults ck rs)"
  unfolding rankResults_def by (rule sorted_wrt_take [OF sortResults_sorted])

lemma rankResults_set: "set (rankResults ck rs) \<subseteq> set (uniqueResults rs)"
  unfolding rankResults_def using set_take_subset [of 50 "sortResults ck (uniqueResults rs)"]
  by (simp add: sortResults_set)

lemma rankResults_distinct:
  assumes "distinct (map f (uniqueResults rs))"
  shows "distinct (map f (rankResults ck rs))"
proof -
  have "mset (map f (sortResults ck (uniqueResults rs))) = mset (map f (uniqueResults rs))"
    by (simp add: sortResults_mset)
  then have "distinct (map f (sortResults ck (uniqueResults rs)))"
    using assms by (metis mset_eq_imp_distinct_iff)
  then show ?thesis by (simp add: rankResults_def take_map [symmetric])
qed

section \<open>What the branches push\<close>

lemma test_results [simp]: "results (snd (test t s st)) = results st"
  by (simp add: test_def)

lemma guardedTest_results [simp]: "results (snd (guardedTest t s st)) = results st"
  by (simp add: guardedTest_def)

lemma counted_test: "counted st \<Longrightarrow> counted (snd (test t s st))"
  by (simp add: counted_def)

lemma counted_lastIndex [simp]: "counted (st\<lparr>lastIndex := i\<rparr>) = counted st"
  by (simp add: counted_def)

lemma counted_requests [simp]: "counted (st\<lparr>requests := q\<rparr>) = counted st"
  by (simp add: counted_def)

lemma counted_foldl:
  assumes "\<And>st x. counted st \<Longrightarrow> counted (f st x)" and "counted st"
  shows "counted (foldl f st xs)"
  using assms(2) by (induction xs arbitrary: st) (simp_all add: assms(1))

lemma searchInContent_counted:
  "counted st \<Longrightarrow> ty \<in> set knownTypes \<Longrightarrow> counted (searchInContent t body fileNm ty nm lbl ident st)"
  by (simp add: searchInContent_def Let_def counted_def sound_def)

lemma apexClassStep_counted: "counted st \<Longrightarrow> counted (apexClassStep t st cls)"
  by (simp add: apexClassStep_def Let_def searchInContent_counted counted_test knownTypes_def)

lemma triggerStep_counted: "counted st \<Longrightarrow> counted (triggerStep t st trg)"
  by (simp add: triggerStep_def Let_def searchInContent_counted counted_test knownTypes_def)

lemma lwcStep_counted: "counted st \<Longrightarrow> counted (lwcStep t st lwc)"
  by (simp add: lwcStep_def Let_def counted_def sound_def knownTypes_def)

lemma auraStep_counted: "counted st \<Longrightarrow> counted (auraStep t st aura)"
  by (simp add: auraStep_def Let_def counted_def sound_def knownTypes_def)

lemma validationStep_counted: "counted st \<Longrightarrow> counted (validationStep t st rule)"
  by (simp add: validationStep_def Let_def counted_def sound_def knownTypes_def)

lemma layoutStep_counted: "counted st \<Longrightarrow> counted (layoutStep t st layout)"
  by (simp add: layoutStep_def Let_def counted_def sound_def knownTypes_def)

lemma recordTypeStep_counted: "counted st \<Longrightarrow> counted (recordTypeStep t st recordType)"
  by (simp add: recordTypeStep_def Let_def counted_def sound_def knownTypes_def)

lemma soslStep_counted: "counted st \<Longrightarrow> counted (soslStep t st rec)"
  by (simp add: soslStep_def Let_def counted_def sound_def knownTypes_def)

lemma flowNameStep_results [simp]: "results (snd (flowNameStep t flow st)) = results st"
  by (simp add: flowNameStep_def Let_def)

lemma flowNameSteps_results [simp]: "results (snd (flowNameSteps t batch st)) = results st"
  by (induction batch arbitrary: st) (simp_all add: Let_def)

lemma scanFlowXml_results [simp]: "results (snd (scanFlowXml t x st)) = results st"
  by (simp add: scanFlowXml_def Let_def)

lemma addFlow_counted:
  "counted st \<Longrightarrow> n = length ms \<Longrightarrow> counted (addFlow flow ms n st)"
  by (simp add: addFlow_def Let_def counted_def sound_def knownTypes_def)

lemma scanFlowXml_counted: "counted st \<Longrightarrow> counted (snd (scanFlowXml t x st))"
  by (simp add: counted_def)

lemma flowXmlStep_counted: "counted st \<Longrightarrow> counted (snd (flowXmlStep t x flow ms st))"
  by (cases x) (simp_all add: flowXmlStep_def Let_def addFlow_counted scanFlowXml_counted)

lemma flowXmlSteps_counted: "counted st \<Longrightarrow> counted (snd (flowXmlSteps t xml started st))"
  by (induction started arbitrary: st) (auto simp: Let_def flowXmlStep_counted)

lemma flowNameSteps_counted: "counted st \<Longrightarrow> counted (snd (flowNameSteps t batch st))"
  by (simp add: counted_def)

lemma processBatch_counted: "counted st \<Longrightarrow> counted (snd (processBatch t xml batch st))"
  by (simp add: processBatch_def Let_def flowXmlSteps_counted flowNameSteps_counted)

lemma processFlows_counted: "counted st \<Longrightarrow> counted (snd (processFlows t xml flows st))"
proof (induction t xml flows st rule: processFlows.induct)
  case (1 t xml flows st)
  show ?case
  proof (cases "flows = []")
    case True
    with "1.prems" show ?thesis by (simp add: processFlows.simps)
  next
    case False
    note b = processBatch_counted [OF "1.prems", of t xml "take 3 flows"]
    show ?thesis
    proof (cases "fst (processBatch t xml (take 3 flows) st)")
      case True
      from "1.IH" [OF False True b] False True
      show ?thesis by (subst processFlows.simps) simp
    next
      case f: False
      with False b show ?thesis by (subst processFlows.simps) simp
    qed
  qed
qed

lemma processFlows_Nil [simp]: "processFlows t xml [] st = (True, st)"
  by (simp add: processFlows.simps)

lemma branchCatch_state [simp]: "snd (branchCatch e st) = st"
  by (cases e) (simp_all add: branchCatch_def)

lemmas branch_defs = runBranch_def searchApexClasses_def searchApexTriggers_def searchFlows_def
  searchLwc_def searchAura_def searchValidationRules_def searchLayouts_def
  searchRecordTypes_def searchSosl_def

lemma runBranch_counted: "counted st \<Longrightarrow> counted (snd (runBranch env t b st))"
  by (cases b)
     (simp_all add: branch_defs counted_foldl apexClassStep_counted
        triggerStep_counted processFlows_counted lwcStep_counted auraStep_counted
        validationStep_counted layoutStep_counted recordTypeStep_counted soslStep_counted Let_def
        split: sum.splits Response.splits)

lemma runBranches_counted: "counted st \<Longrightarrow> counted (snd (runBranches env t sched st))"
  by (induction sched arbitrary: st) (simp_all add: Let_def runBranch_counted)

lemma initialState_counted: "counted (initialState t)"
  by (simp add: counted_def initialState_def)

lemma pushed_sound: "list_all sound (results (snd (runBranches env t sched (initialState t))))"
  using runBranches_counted [OF initialState_counted] by (simp add: counted_def)

section \<open>The shape of the returned list\<close>

lemma searchBody_cases:
  "fst (searchBody ck env sched t) = Inr rs \<Longrightarrow>
   rs = rankResults ck (results (snd (runBranches env t sched (initialState t))))"
  by (auto simp: searchBody_def Let_def split: option.splits Promise.splits)

lemma searchCodeContent_cases:
  "fst (searchCodeContent ck env sched url tok t) = Resolved rs \<Longrightarrow>
   rs = [] \<or> rs = rankResults ck (results (snd (runBranches env t sched (initialState t))))"
  by (auto simp: searchCodeContent_def Let_def dest: searchBody_cases split: if_splits sum.splits)

lemma rankResults_grouped:
  "list_all sound rs \<Longrightarrow> rankResults ck rs = take 50 (sortResults ck (groupedResults rs))"
  by (simp add: rankResults_def uniqueResults_grouped)

text \<open>
  Claim C3. In every list that searchCodeContent returns, no two results have the same
  type and name. The list is empty, or it is the first fifty of the sorted groups of the
  pushed entries: one result for each identity, and where several entries share an
  identity, the first of them with the concatenation of their match lists deduplicated by
  line and snippet, and the length of that as totalMatches.
\<close>

theorem merged_by_identity:
  assumes "fst (searchCodeContent ck env sched url tok t) = Resolved rs"
  shows "distinct (map identity rs)
         \<and> (rs = [] \<or> rs = take 50 (sortResults ck (groupedResults
                                (results (snd (runBranches env t sched (initialState t)))))))"
proof -
  let ?pushed = "results (snd (runBranches env t sched (initialState t)))"
  have g: "uniqueResults ?pushed = groupedResults ?pushed"
    by (rule uniqueResults_grouped [OF pushed_sound])
  have "distinct (map identity (rankResults ck ?pushed))"
    by (rule rankResults_distinct) (simp add: g groupedResults_distinct)
  moreover have "rankResults ck ?pushed = take 50 (sortResults ck (groupedResults ?pushed))"
    by (rule rankResults_grouped [OF pushed_sound])
  ultimately show ?thesis using searchCodeContent_cases [OF assms] by auto
qed

text \<open>
  Claim C4. Every list that searchCodeContent returns is sorted by descending totalMatches
  and, among results with equal totalMatches, by ascending name in the collation; it has at
  most fifty entries, and it is the first fifty of a sorted rearrangement of the merged
  results.
\<close>

theorem ranked_and_truncated:
  assumes "fst (searchCodeContent ck env sched url tok t) = Resolved rs"
  shows "sorted_wrt (inOrder ck) rs \<and> length rs \<le> 50
         \<and> (rs = [] \<or> (\<exists>full. rs = take 50 full \<and> sorted_wrt (inOrder ck) full
               \<and> mset full = mset (uniqueResults (results (snd (runBranches env t sched (initialState t)))))))"
proof -
  let ?pushed = "results (snd (runBranches env t sched (initialState t)))"
  let ?full = "sortResults ck (uniqueResults ?pushed)"
  have "rankResults ck ?pushed = take 50 ?full \<and> sorted_wrt (inOrder ck) ?full
        \<and> mset ?full = mset (uniqueResults ?pushed)"
    by (simp add: rankResults_def sortResults_sorted sortResults_mset)
  moreover have "sorted_wrt (inOrder ck) (rankResults ck ?pushed)" by (rule rankResults_sorted)
  moreover have "length (rankResults ck ?pushed) \<le> 50" by (simp add: rankResults_def)
  ultimately show ?thesis using searchCodeContent_cases [OF assms] by auto
qed

text \<open>
  Claim C10. For every result in a list that searchCodeContent returns, totalMatches is
  the length of its match list; this holds for the entries of every branch and is kept by
  the merging of duplicates.
\<close>

theorem totalMatches_is_length:
  assumes "fst (searchCodeContent ck env sched url tok t) = Resolved rs" and "r \<in> set rs"
  shows "totalMatches r = length (matches r)"
proof -
  let ?pushed = "results (snd (runBranches env t sched (initialState t)))"
  from searchCodeContent_cases [OF assms(1)] assms(2) have rs: "rs = rankResults ck ?pushed" by auto
  have "list_all sound (groupedResults ?pushed)"
    by (rule groupedResults_sound [OF pushed_sound])
  then have "list_all sound (uniqueResults ?pushed)"
    by (simp add: uniqueResults_grouped [OF pushed_sound])
  with assms(2) rs rankResults_set [of ck ?pushed] show ?thesis
    by (auto simp: list_all_iff sound_def)
qed

text \<open>
  Claim C6. For a search term of fewer than two characters, whatever the base URL and the
  token, searchCodeContent returns the empty list and issues no call.
\<close>

theorem short_term_no_call:
  "length searchTerm < 2 \<Longrightarrow>
   searchCodeContent ck env sched instanceUrl accessToken searchTerm = (Resolved [], [])"
  by (simp add: searchCodeContent_def)




lemma flowNameSteps_flows [simp]: "map fst (fst (flowNameSteps t batch st)) = batch"
  by (induction batch arbitrary: st) (simp_all add: Let_def)







section \<open>Failed calls\<close>









lemma failed_document_fetch:
  "failedOtherwise x \<or> authFailure x \<Longrightarrow>
   flowXmlStep t x flow ms st = (True, addFlow flow ms (length ms) st)"
  by (cases x) (simp_all add: flowXmlStep_def failedOtherwise_def authFailure_def)


section \<open>Order of settling\<close>






section \<open>Evaluation of the scanner\<close>

lemma findFrom_unfold:
  "findFrom f p s i k =
     (if k = 0 then None else if matchesAt f p s i then Some i else findFrom f p s (Suc i) (k - 1))"
  by (cases k) simp_all

lemmas string_eval = regexTest_def firstIndex_def findFrom_unfold matchesAt_def canonicalize_def
  lower_letters_def upper_letters_def toLowerChar_def toLowerCase_def indexOf_def trim_def isSpace_def
  substring_def newline_def

lemma twoLines_split: "splitLines twoLines = [''x'', ''ab'']"
  by (simp add: twoLines_def newline_def)

lemma twoLines_test: "i = 0 \<or> i = 2 \<Longrightarrow> regexTest ''ab'' i twoLines = (True, 4)"
  by (auto simp: twoLines_def string_eval)

lemma line_tests:
  "regexTest ''ab'' 4 ''x'' = (False, 0)" "regexTest ''ab'' 0 ''ab'' = (True, 2)"
  by (simp_all add: string_eval)

lemma twoLines_match: "contentMatch ''ab'' ty [''x'', ''ab''] (Suc 0) = lineTwoMatch ty"
  by (simp add: contentMatch_def lineTwoMatch_def contextLines_def makeSnippet_def showNat.simps
        digitChar_def string_eval Let_def)

lemma twoLines_scan:
  "scanLines (contentMatch ''ab'' ty [''x'', ''ab'']) 15 ''ab'' [''x'', ''ab''] 0 4 [] = ([lineTwoMatch ty], 2)"
  by (simp add: scanLines.simps line_tests twoLines_match)

lemma twoLines_searchInContent:
  "searchInContent ''ab'' twoLines fileNm ty nm lbl ident (st\<lparr>lastIndex := 4\<rparr>) =
     st\<lparr>results := results st @
           [\<lparr> id_r = ident, type_r = ty, name = nm, label = lbl, fileName = fileNm,
              matches = [lineTwoMatch ty], totalMatches = 1 \<rparr>],
        lastIndex := 2\<rparr>"
  by (simp add: searchInContent_def twoLines_split twoLines_scan Let_def) (simp add: twoLines_def)

lemma twoLines_nonblank: "twoLines \<noteq> [] \<and> trim twoLines \<noteq> []"
  by (simp add: twoLines_def string_eval)

lemma fooClass_step:
  "lastIndex st = 0 \<or> lastIndex st = 2 \<Longrightarrow>
   apexClassStep ''ab'' st fooClass = st\<lparr>results := results st @ [fooClassResult], lastIndex := 2\<rparr>"
  using twoLines_test [of "lastIndex st"] twoLines_nonblank
  by (simp add: apexClassStep_def fooClass_def test_def Let_def twoLines_searchInContent fooClassResult_def)

lemma fooTrigger_step:
  "lastIndex st = 0 \<or> lastIndex st = 2 \<Longrightarrow>
   triggerStep ''ab'' st fooTrigger = st\<lparr>results := results st @ [triggerResult ''01q1'' ''Foo''], lastIndex := 2\<rparr>"
  using twoLines_test [of "lastIndex st"] twoLines_nonblank
  by (simp add: triggerStep_def fooTrigger_def test_def Let_def twoLines_searchInContent triggerResult_def)

lemma barTrigger_step:
  "lastIndex st = 0 \<or> lastIndex st = 2 \<Longrightarrow>
   triggerStep ''ab'' st barTrigger = st\<lparr>results := results st @ [triggerResult ''01q2'' ''Bar''], lastIndex := 2\<rparr>"
  using twoLines_test [of "lastIndex st"] twoLines_nonblank
  by (simp add: triggerStep_def barTrigger_def test_def Let_def twoLines_searchInContent triggerResult_def)














section \<open>Evaluation of whole runs\<close>

lemmas run_eval = searchCodeContent_def searchBody_def branch_defs toolingQuery_def quietEnv_def
  Let_def initialState_def isTokenRejection_def branchCatch_def

lemmas rank_eval = rankResults_def uniqueResults_def mergeStep_def resultKey_def sortResults_def
  compareResults_def localeCompare_def uniqueMatchesOf_def uniqueMatchesStep_def matchKey_def
  showNat.simps digitChar_def

lemma tie_pushed_1:
  "results (snd (runBranches tieEnv ''ab'' allBranches (initialState ''ab''))) = [fooClassResult, triggerResult ''01q1'' ''Foo'']"
  by (simp add: allBranches_def tieEnv_def run_eval fooClass_step fooTrigger_step)

lemma tie_pushed_2:
  "results (snd (runBranches tieEnv ''ab'' triggersFirst (initialState ''ab''))) = [triggerResult ''01q1'' ''Foo'', fooClassResult]"
  by (simp add: triggersFirst_def tieEnv_def run_eval fooClass_step fooTrigger_step)

lemma tie_rank_1: "rankResults ck [fooClassResult, triggerResult ''01q1'' ''Foo''] = [fooClassResult, triggerResult ''01q1'' ''Foo'']"
  by (simp add: rank_eval fooClassResult_def triggerResult_def)

lemma tie_rank_2: "rankResults ck [triggerResult ''01q1'' ''Foo'', fooClassResult] = [triggerResult ''01q1'' ''Foo'', fooClassResult]"
  by (simp add: rank_eval fooClassResult_def triggerResult_def)


lemma searchCodeContent_run:
  assumes "runBranches env t sched (initialState t) = (outs, st)"
    and "url \<noteq> []" and "tok \<noteq> []" and "2 \<le> length t"
  shows "find isTokenRejection outs = None \<Longrightarrow> Pending \<notin> set outs \<Longrightarrow>
           fst (searchCodeContent ck env sched url tok t) = Resolved (rankResults ck (results st))"
    and "find isTokenRejection outs = Some (Rejected e) \<Longrightarrow> Pending \<notin> set outs \<Longrightarrow>
           fst (searchBody ck env sched t) = Inl e \<and> fst (searchCodeContent ck env sched url tok t) = Resolved []"
  using assms by (auto simp: searchCodeContent_def searchBody_def settled_def Let_def)

lemmas run_steps = run_eval allBranches_def triggersFirst_def fallbackFirst_def nineResolved_def
  fooClass_step fooTrigger_step barTrigger_step


lemma twoEnv_run:
  "runBranches twoEnv ''ab'' allBranches (initialState ''ab'') =
     (nineResolved, \<lparr> results = [fooClassResult, triggerResult ''01q2'' ''Bar''], lastIndex = 2,
                      requests = initialRequests ''ab'' \<rparr>)"
  "runBranches twoEnv ''ab'' triggersFirst (initialState ''ab'') =
     (nineResolved, \<lparr> results = [triggerResult ''01q2'' ''Bar'', fooClassResult], lastIndex = 2,
                      requests = initialRequests ''ab'' \<rparr>)"
  by (simp_all add: twoEnv_def run_steps)

lemma mergeEnv_run:
  "runBranches mergeEnv ''ab'' allBranches (initialState ''ab'') =
     (nineResolved, \<lparr> results = [fooClassResult], lastIndex = 2, requests = initialRequests ''ab'' \<rparr>)"
  "runBranches mergeEnv ''ab'' fallbackFirst (initialState ''ab'') =
     (nineResolved, \<lparr> results = [fooFallbackEntry, fooClassResult], lastIndex = 2,
                      requests = initialRequests ''ab'' \<rparr>)"
  by (simp_all add: mergeEnv_def run_steps soslStep_def fooRecord_def fooClassResult_def fooFallbackEntry_def)

lemma authEnv_run:
  "runBranches authEnv ''ab'' allBranches (initialState ''ab'') =
     (Rejected (TokenExpiredError ''Session expired or invalid'') # tl nineResolved,
      \<lparr> results = [triggerResult ''01q2'' ''Bar''], lastIndex = 2, requests = initialRequests ''ab'' \<rparr>)"
  by (simp add: authEnv_def twoEnv_def run_steps handleApiError_def)

lemma nineResolved_clean: "find isTokenRejection nineResolved = None"
  by (simp add: nineResolved_def isTokenRejection_def)

lemma nineResolved_settled [simp]: "Pending \<notin> set nineResolved" "Pending \<notin> set (tl nineResolved)"
  by (simp_all add: nineResolved_def)

lemma rank_single: "rankResults ck [r] = [r]"
  by (simp add: rankResults_def uniqueResults_def mergeStep_def sortResults_def)


lemma rank_two:
  "rankResults codeUnits [fooClassResult, triggerResult ''01q2'' ''Bar''] = [triggerResult ''01q2'' ''Bar'', fooClassResult]"
  "rankResults codeUnits [triggerResult ''01q2'' ''Bar'', fooClassResult] = [triggerResult ''01q2'' ''Bar'', fooClassResult]"
  by (simp_all add: rank_eval fooClassResult_def triggerResult_def codeUnits_def)

lemma rank_merge:
  "rankResults ck [fooFallbackEntry, fooClassResult] = [fooFallbackResult]"
  by (simp add: rank_eval fooClassResult_def fooFallbackEntry_def fooFallbackResult_def soslMatch_def
        fieldMatch_def lineTwoMatch_def)


lemma account_tests:
  "regexTest ''account'' 0 ''accountList Customer list'' = (True, 7)"
  "regexTest ''account'' 7 ''accountList'' = (False, 0)"
  "regexTest ''account'' 0 ''Customer list'' = (False, 0)"
  by (simp_all add: string_eval)

lemma accountBundle_step:
  "lastIndex st = 0 \<Longrightarrow>
   lwcStep ''account'' st accountBundle = st\<lparr>results := results st @ [accountResult], lastIndex := 0\<rparr>"
  by (simp add: lwcStep_def accountBundle_def test_def guardedTest_def Let_def account_tests accountResult_def)

lemma lwcEnv_run:
  "runBranches lwcEnv ''account'' allBranches (initialState ''account'') =
     (nineResolved, \<lparr> results = [accountResult], lastIndex = 0, requests = initialRequests ''account'' \<rparr>)"
  by (simp add: lwcEnv_def run_eval allBranches_def nineResolved_def accountBundle_step)

lemma repeated_split: "splitLines repeated = [''ab'', ''ab'']"
  by (simp add: repeated_def newline_def)

lemma repeated_occurrences:
  "map (\<lambda>l. firstIndex canonicalize ''ab'' l 0) (splitLines repeated) = [Some 0, Some 0]"
  by (simp add: repeated_split string_eval)

lemma repeated_tests:
  "regexTest ''ab'' 0 repeated = (True, 2)"
  "regexTest ''ab'' 0 ''ab'' = (True, 2)" "regexTest ''ab'' 2 ''ab'' = (False, 0)"
  by (simp_all add: repeated_def string_eval)

lemma repeated_matches:
  "contentMatch ''ab'' ''apex-class'' [''ab'', ''ab''] 0 = hd (matches (twiceResult 1))"
  "contentMatch ''ab'' ''apex-class'' [''ab'', ''ab''] (Suc 0) = hd (matches (twiceResult 2))"
  by (simp_all add: contentMatch_def twiceResult_def contextLines_def makeSnippet_def showNat.simps
        digitChar_def string_eval Let_def)

lemma repeated_scan:
  "scanLines (contentMatch ''ab'' ''apex-class'' [''ab'', ''ab'']) 15 ''ab'' [''ab'', ''ab''] 0 0 []
     = (matches (twiceResult 1), 0)"
  "scanLines (contentMatch ''ab'' ''apex-class'' [''ab'', ''ab'']) 15 ''ab'' [''ab'', ''ab''] 0 2 []
     = (matches (twiceResult 2), 2)"
  by (simp_all add: scanLines.simps repeated_tests repeated_matches) (simp_all add: twiceResult_def)

lemma repeated_searchInContent:
  "searchInContent ''ab'' repeated ''Twice.cls'' ''apex-class'' ''Twice'' ''Twice'' ''apex-class-01p2''
     (initialState ''ab'') = (initialState ''ab'')\<lparr>results := [twiceResult 1]\<rparr>"
  by (simp add: searchInContent_def repeated_split repeated_scan Let_def initialState_def)
     (simp add: repeated_def twiceResult_def)

lemma repeatedClass_step:
  "apexClassStep ''ab'' (initialState ''ab'') repeatedClass
     = (initialState ''ab'')\<lparr>results := [twiceResult 2], lastIndex := 2\<rparr>"
proof -
  have "repeated \<noteq> [] \<and> trim repeated \<noteq> []" by (simp add: repeated_def string_eval)
  then show ?thesis
    by (simp add: apexClassStep_def repeatedClass_def test_def Let_def repeated_tests
          searchInContent_def repeated_split repeated_scan initialState_def)
       (simp add: twiceResult_def)
qed

lemma repeatEnv_run:
  "runBranches repeatEnv ''ab'' allBranches (initialState ''ab'') =
     (nineResolved, \<lparr> results = [twiceResult 2], lastIndex = 2, requests = initialRequests ''ab'' \<rparr>)"
  using repeatedClass_step
  by (simp add: repeatEnv_def run_eval allBranches_def nineResolved_def)
















lemma crowd_last_pushed: "crowdEntry 50 \<in> set (map crowdEntry [0..<51])"
  by (simp del: upt_Suc)







section \<open>The claims at concrete invocations\<close>

lemma valid_ab: "''https://x'' \<noteq> [] \<and> ''tok'' \<noteq> [] \<and> 2 \<le> length ''ab'' \<and> 2 \<le> length ''account''"
  by simp



lemma twoEnv_returns:
  "fst (searchCodeContent codeUnits twoEnv allBranches ''https://x'' ''tok'' ''ab'')
     = Resolved [triggerResult ''01q2'' ''Bar'', fooClassResult]"
  "fst (searchCodeContent codeUnits twoEnv triggersFirst ''https://x'' ''tok'' ''ab'')
     = Resolved [triggerResult ''01q2'' ''Bar'', fooClassResult]"
  using searchCodeContent_run(1) [OF twoEnv_run(1) _ _ _ nineResolved_clean, of "''https://x''" "''tok''" codeUnits]
    searchCodeContent_run(1) [OF twoEnv_run(2) _ _ _ nineResolved_clean, of "''https://x''" "''tok''" codeUnits]
  by (simp_all add: rank_two)

lemma mergeEnv_returns:
  "fst (searchCodeContent ck mergeEnv allBranches ''https://x'' ''tok'' ''ab'') = Resolved [fooClassResult]"
  "fst (searchCodeContent ck mergeEnv fallbackFirst ''https://x'' ''tok'' ''ab'') = Resolved [fooFallbackResult]"
  using searchCodeContent_run(1) [OF mergeEnv_run(1) _ _ _ nineResolved_clean, of "''https://x''" "''tok''" ck]
    searchCodeContent_run(1) [OF mergeEnv_run(2) _ _ _ nineResolved_clean, of "''https://x''" "''tok''" ck]
  by (simp_all add: rank_single rank_merge)




text \<open>
  Claim C1, evaluated where it fails. The query for the Apex classes is answered with
  status 401 and the error code \<^verbatim>\<open>INVALID_SESSION_ID\<close>. The branch is rejected with the token
  failure and the body of searchCodeContent throws it, but the \<^verbatim>\<open>catch\<close> of line 1386 turns
  it into an empty list: the promise is resolved.
\<close>

theorem token_failure_swallowed:
  "authFailure (apexClassResponse authEnv)
   \<and> fst (runBranch authEnv ''ab'' ApexClasses (initialState ''ab''))
       = Rejected (TokenExpiredError ''Session expired or invalid'')
   \<and> fst (searchBody codeUnits authEnv allBranches ''ab'')
       = Inl (TokenExpiredError ''Session expired or invalid'')
   \<and> fst (searchCodeContent codeUnits authEnv allBranches ''https://x'' ''tok'' ''ab'') = Resolved []"
proof -
  have a: "authFailure (apexClassResponse authEnv)"
    by (simp add: authEnv_def authFailure_def)
  have b: "fst (runBranch authEnv ''ab'' ApexClasses (initialState ''ab''))
       = Rejected (TokenExpiredError ''Session expired or invalid'')"
    by (simp add: authEnv_def branch_defs toolingQuery_def handleApiError_def branchCatch_def)
  have f: "find isTokenRejection (Rejected (TokenExpiredError ''Session expired or invalid'') # tl nineResolved)
       = Some (Rejected (TokenExpiredError ''Session expired or invalid''))"
    by (simp add: isTokenRejection_def)
  from searchCodeContent_run(2) [OF authEnv_run _ _ _ f, of "''https://x''" "''tok''" codeUnits] a b
  show ?thesis by simp
qed

text \<open>
  Claim C5, evaluated where it fails. The body has the term on both of its two lines. The
  scanner, started with a fresh expression, reports line 1 only; in the branch, where the
  expression has been used on the whole body just before, it reports line 2 only. In both
  cases there is one match where the claim has two.
\<close>

theorem second_line_missed:
  "map (\<lambda>l. firstIndex canonicalize ''ab'' l 0) (splitLines repeated) = [Some 0, Some 0]
   \<and> results (searchInContent ''ab'' repeated ''Twice.cls'' ''apex-class'' ''Twice'' ''Twice''
                ''apex-class-01p2'' (initialState ''ab'')) = [twiceResult 1]
   \<and> fst (searchCodeContent codeUnits repeatEnv allBranches ''https://x'' ''tok'' ''ab'')
       = Resolved [twiceResult 2]
   \<and> map line (matches (twiceResult 2)) = [2] \<and> totalMatches (twiceResult 2) = 1"
  using searchCodeContent_run(1) [OF repeatEnv_run _ _ _ nineResolved_clean, of "''https://x''" "''tok''" codeUnits]
  by (simp add: repeated_occurrences repeated_searchInContent rank_single twiceResult_def)

text \<open>
  Claim C9, evaluated where it fails. The name of a component bundle begins with the term
  and its label does not contain it. The test of the joined fields succeeds and moves
  \<^verbatim>\<open>lastIndex\<close> behind the hit, so the test of the name starts there and fails, and so
  does the test of the label; the branch pushes the result all the same, with no match.
\<close>

theorem result_without_matches:
  "fst (searchCodeContent codeUnits lwcEnv allBranches ''https://x'' ''tok'' ''account'')
     = Resolved [accountResult]
   \<and> matches accountResult = [] \<and> totalMatches accountResult = 0"
  using searchCodeContent_run(1) [OF lwcEnv_run _ _ _ nineResolved_clean, of "''https://x''" "''tok''" codeUnits]
  by (simp add: rank_single accountResult_def)





theorem merged_by_identity_witness:
  "fst (searchCodeContent codeUnits mergeEnv fallbackFirst ''https://x'' ''tok'' ''ab'') = Resolved [fooFallbackResult]
   \<and> distinct (map identity [fooFallbackResult])
   \<and> [fooFallbackResult] = take 50 (sortResults codeUnits (groupedResults
         (results (snd (runBranches mergeEnv ''ab'' fallbackFirst (initialState ''ab''))))))
   \<and> matches fooFallbackResult = dedupMatches ([soslMatch ''ab''] @ [lineTwoMatch ''apex-class''])"
proof -
  have h: "fst (searchCodeContent codeUnits mergeEnv fallbackFirst ''https://x'' ''tok'' ''ab'')
           = Resolved [fooFallbackResult]"
    by (rule mergeEnv_returns(2))
  have d: "dedupMatches ([soslMatch ''ab''] @ [lineTwoMatch ''apex-class'']) = matches fooFallbackResult"
    by (simp add: dedupMatches_def matchIdentity_def soslMatch_def fieldMatch_def lineTwoMatch_def
          fooFallbackResult_def)
  from merged_by_identity [OF h]
  have c: "[fooFallbackResult] = take 50 (sortResults codeUnits (groupedResults
                 (results (snd (runBranches mergeEnv ''ab'' fallbackFirst (initialState ''ab''))))))"
    by simp
  have i: "distinct (map identity [fooFallbackResult])" by simp
  from c i h d [symmetric] show ?thesis by blast
qed

theorem ranked_and_truncated_witness:
  "fst (searchCodeContent codeUnits twoEnv allBranches ''https://x'' ''tok'' ''ab'')
     = Resolved [triggerResult ''01q2'' ''Bar'', fooClassResult]
   \<and> sorted_wrt (inOrder codeUnits) [triggerResult ''01q2'' ''Bar'', fooClassResult]
   \<and> length [triggerResult ''01q2'' ''Bar'', fooClassResult] \<le> 50"
proof -
  have h: "fst (searchCodeContent codeUnits twoEnv allBranches ''https://x'' ''tok'' ''ab'')
     = Resolved [triggerResult ''01q2'' ''Bar'', fooClassResult]"
    by (rule twoEnv_returns(1))
  from ranked_and_truncated [OF h] h show ?thesis by simp
qed

theorem totalMatches_is_length_witness:
  "fst (searchCodeContent codeUnits mergeEnv fallbackFirst ''https://x'' ''tok'' ''ab'') = Resolved [fooFallbackResult]
   \<and> fooFallbackResult \<in> set [fooFallbackResult]
   \<and> totalMatches fooFallbackResult = length (matches fooFallbackResult)
   \<and> length (matches fooFallbackResult) = 2"
proof -
  have h: "fst (searchCodeContent codeUnits mergeEnv fallbackFirst ''https://x'' ''tok'' ''ab'')
           = Resolved [fooFallbackResult]"
    by (rule mergeEnv_returns(2))
  have m: "fooFallbackResult \<in> set [fooFallbackResult]" by simp
  from totalMatches_is_length [OF h m] h show ?thesis by (simp add: fooFallbackResult_def)
qed

theorem short_term_no_call_witness:
  "length ''a'' < 2
   \<and> searchCodeContent codeUnits twoEnv allBranches ''https://x'' ''tok'' ''a'' = (Resolved [], [])"
  using short_term_no_call [of "''a''" codeUnits twoEnv allBranches "''https://x''" "''tok''"] by simp

lemma calls_of_valid_term:
  "snd (searchCodeContent ck quietEnv allBranches ''https://x/'' ''tok'' ''ab'')
     = map (Request ''https://x'' ''tok'') (initialRequests ''ab'')"
  by (simp add: searchCodeContent_def searchBody_def Let_def cleanUrl_def allBranches_def branch_defs
        toolingQuery_def quietEnv_def initialState_def split: option.splits Promise.splits)


end
